theory Spec2Isabelle
  imports Complex_Main
begin

section \<open>Numbers, points and arrays\<close>

text \<open>
  The polyline engine of \<^verbatim>\<open>src/og/entity/Polyline.js\<close>. JavaScript numbers are
  modelled as reals where they are coordinates and as integers where they are vertex
  indices or order values; rounding, NaN and infinities are outside the model. The
  fields \<^verbatim>\<open>x\<close>, \<^verbatim>\<open>y\<close>, \<^verbatim>\<open>z\<close> of a \<^verbatim>\<open>Vec3\<close> are called \<open>vx\<close>, \<open>vy\<close>, \<open>vz\<close>, and
  the leading underscore of a private member is dropped.
\<close>

datatype error = TypeError | NaN_index

record vec3 =
  vx :: real
  vy :: real
  vz :: real

record lonlat =
  lon :: real
  lat :: real
  height :: real

text \<open>
  A path point is handed in either as an array \<^verbatim>\<open>[a, b, c]\<close> or as an object; the
  builders test \<^verbatim>\<open>cur.constructor === Array\<close> (\<^verbatim>\<open>instanceof Array\<close>) and convert.
\<close>

datatype point3 = Array3 real real real | Vector3 vec3

datatype pointLL = ArrayLL real real real | ObjectLL lonlat

fun toVec3 :: "point3 \<Rightarrow> vec3" where
  "toVec3 (Array3 a b c) = \<lparr>vx = a, vy = b, vz = c\<rparr>"
| "toVec3 (Vector3 v) = v"

fun toLonLat :: "pointLL \<Rightarrow> lonlat" where
  "toLonLat (ArrayLL a b c) = \<lparr>lon = a, lat = b, height = c\<rparr>"
| "toLonLat (ObjectLL p) = p"

text \<open>
  The geodetic bounding box. \<^verbatim>\<open>LonLat.set\<close> is not part of the sources at hand; it is
  modelled as writing \<open>lon\<close> and \<open>lat\<close> (the height of a corner is never read by the
  polyline).
\<close>

record geo_extent =
  southWest :: lonlat
  northEast :: lonlat

definition set_lonlat :: "lonlat \<Rightarrow> real \<Rightarrow> real \<Rightarrow> lonlat" where
  "set_lonlat p lo la = p\<lparr>lon := lo, lat := la\<rparr>"

definition resetExtent :: "geo_extent \<Rightarrow> geo_extent" where
  "resetExtent e =
     e\<lparr>southWest := set_lonlat (southWest e) 180 90,
       northEast := set_lonlat (northEast e) (- 180) (- 90)\<rparr>"

text \<open>
  The ellipsoid is a collaborator outside the sources: two pure coordinate transforms,
  taken as parameters. So is \<^verbatim>\<open>LonLat.forwardMercator\<close>, passed to every operation
  that calls it as its first argument \<open>fm\<close>.
\<close>

record ellipsoid =
  cartesianToLonLat :: "vec3 \<Rightarrow> lonlat"
  lonLatToCartesian :: "lonlat \<Rightarrow> vec3"

subsection \<open>Reading and writing JavaScript arrays\<close>

text \<open>
  An array filled only by \<^verbatim>\<open>push\<close> is a list. Reading it outside its range gives
  \<^verbatim>\<open>undefined\<close>, here \<open>None\<close>.
\<close>

definition js_nth :: "'a list \<Rightarrow> int \<Rightarrow> 'a option" where
  "js_nth xs i = (if 0 \<le> i \<and> i < int (length xs) then Some (xs ! nat i) else None)"

text \<open>
  An array written by index (\<^verbatim>\<open>v[k] = a\<close>) can get holes: writing past the end
  extends the array and leaves the slots in between empty. Such an array is a list of
  options, \<open>None\<close> being a hole.
\<close>

definition js_get :: "'a option list \<Rightarrow> nat \<Rightarrow> 'a option" where
  "js_get xs k = (if k < length xs then xs ! k else None)"

definition js_set :: "'a option list \<Rightarrow> nat \<Rightarrow> 'a \<Rightarrow> 'a option list" where
  "js_set xs k a =
     (if k < length xs then xs[k := Some a]
      else xs @ replicate (k - length xs) None @ [Some a])"

fun js_write :: "'a option list \<Rightarrow> nat \<Rightarrow> 'a list \<Rightarrow> 'a option list" where
  "js_write xs k [] = xs"
| "js_write xs k (a # as) = js_write (js_set xs k a) (Suc k) as"

text \<open>
  \<^verbatim>\<open>out[j] = []\<close> and \<^verbatim>\<open>out[j].push(a)\<close> on an array of arrays. The builders
  count \<open>j\<close> up from 0 and fill slot \<open>j\<close> before they go on, so \<open>j\<close> never lies
  past the end of \<open>out\<close>.
\<close>

definition set_slot :: "'a list \<Rightarrow> nat \<Rightarrow> 'a \<Rightarrow> 'a list" where
  "set_slot xs j a = (if j < length xs then xs[j := a] else xs @ [a])"

definition push_at :: "'a list list \<Rightarrow> nat \<Rightarrow> 'a \<Rightarrow> 'a list list" where
  "push_at xs j a = xs[j := xs ! j @ [a]]"

section \<open>The mesh builders\<close>

text \<open>
  The 12 numbers pushed for one position: the position four times over, and the four
  order values pushed with them.
\<close>

definition coords4 :: "vec3 \<Rightarrow> real list" where
  "coords4 p = [vx p, vy p, vz p, vx p, vy p, vz p, vx p, vy p, vz p, vx p, vy p, vz p]"

definition orderCycle :: "int list" where
  "orderCycle = [1, - 1, 2, - 2]"

definition mirror :: "vec3 \<Rightarrow> vec3 \<Rightarrow> vec3" where
  "mirror p0 p1 =
     \<lparr>vx = vx p0 + vx p0 - vx p1, vy = vy p0 + vy p0 - vy p1, vz = vz p0 + vz p0 - vz p1\<rparr>"

text \<open>
  The four comparisons that grow the extent by one geodetic point, in the order of the
  builders.
\<close>

definition extendExtent :: "geo_extent \<Rightarrow> lonlat \<Rightarrow> geo_extent" where
  "extendExtent e p =
     (let e1 = (if lon p < lon (southWest e)
                then e\<lparr>southWest := (southWest e)\<lparr>lon := lon p\<rparr>\<rparr> else e);
          e2 = (if lat p < lat (southWest e1)
                then e1\<lparr>southWest := (southWest e1)\<lparr>lat := lat p\<rparr>\<rparr> else e1);
          e3 = (if lon p > lon (northEast e2)
                then e2\<lparr>northEast := (northEast e2)\<lparr>lon := lon p\<rparr>\<rparr> else e2)
      in (if lat p > lat (northEast e3)
          then e3\<lparr>northEast := (northEast e3)\<lparr>lat := lat p\<rparr>\<rparr> else e3))"

text \<open>
  The arrays a builder appends to, with its running vertex index (the local variable
  \<^verbatim>\<open>index\<close>). \<open>outExtent\<close> is documented as a required parameter and is always
  present here, so the guard \<^verbatim>\<open>if (outExtent)\<close> is taken.
\<close>

record lineData =
  outVertices :: "real option list"
  outOrders :: "int list"
  outIndexes :: "int list"
  outPathLonLat :: "lonlat list list"
  outPath3v :: "vec3 list list"
  outPathMerc :: "lonlat option list list"
  outExtent :: geo_extent
  index :: int

definition pushVertex :: "vec3 \<Rightarrow> lineData \<Rightarrow> lineData" where
  "pushVertex p d =
     d\<lparr>outVertices := outVertices d @ map Some (coords4 p),
       outOrders := outOrders d @ orderCycle\<rparr>"

definition pushIndexes :: "int list \<Rightarrow> lineData \<Rightarrow> lineData" where
  "pushIndexes is d = d\<lparr>outIndexes := outIndexes d @ is\<rparr>"

subsection \<open>From Cartesian coordinates: \<^verbatim>\<open>appendLineData3v\<close>\<close>

text \<open>
  The position before the first point (the variable \<^verbatim>\<open>last\<close>) and the one after the
  last point (\<^verbatim>\<open>first\<close>). Reading \<^verbatim>\<open>.constructor\<close> of a point that is not there
  throws.
\<close>

definition firstCap3v :: "bool \<Rightarrow> point3 list \<Rightarrow> error + vec3" where
  "firstCap3v isClosed path =
     (if isClosed then
        (case js_nth path (int (length path) - 1) of
           None \<Rightarrow> Inl TypeError
         | Some l \<Rightarrow> Inr (toVec3 l))
      else
        (case js_nth path 0 of
           None \<Rightarrow> Inl TypeError
         | Some p0 \<Rightarrow>
             (case js_nth path 1 of
                None \<Rightarrow> Inl TypeError
              | Some p1 \<Rightarrow> Inr (mirror (toVec3 p0) (toVec3 p1)))))"

definition lastCap3v :: "bool \<Rightarrow> point3 list \<Rightarrow> error + vec3" where
  "lastCap3v isClosed path =
     (if isClosed then
        (case js_nth path 0 of
           None \<Rightarrow> Inl TypeError
         | Some f \<Rightarrow> Inr (toVec3 f))
      else
        (case js_nth path (int (length path) - 1) of
           None \<Rightarrow> Inl TypeError
         | Some p0 \<Rightarrow>
             (case js_nth path (int (length path) - 2) of
                None \<Rightarrow> Inl TypeError
              | Some p1 \<Rightarrow> Inr (mirror (toVec3 p0) (toVec3 p1)))))"

definition appendPoint3v ::
  "(lonlat \<Rightarrow> lonlat) \<Rightarrow> ellipsoid option \<Rightarrow> nat \<Rightarrow> point3 \<Rightarrow> lineData \<Rightarrow> lineData" where
  "appendPoint3v fm ell j c d =
     (let cur = toVec3 c;
          d1 = (case ell of
                  None \<Rightarrow> d
                | Some e \<Rightarrow>
                    (let lonLat = cartesianToLonLat e cur in
                     d\<lparr>outPathLonLat := push_at (outPathLonLat d) j lonLat,
                       outPath3v := push_at (outPath3v d) j cur,
                       outPathMerc := push_at (outPathMerc d) j (Some (fm lonLat)),
                       outExtent := extendExtent (outExtent d) lonLat\<rparr>));
          d2 = pushVertex cur d1;
          d3 = pushIndexes [index d2, index d2 + 1, index d2 + 2, index d2 + 3] d2
      in d3\<lparr>index := index d3 + 4\<rparr>)"

fun appendPoints3v ::
  "(lonlat \<Rightarrow> lonlat) \<Rightarrow> ellipsoid option \<Rightarrow> nat \<Rightarrow> point3 list \<Rightarrow> lineData \<Rightarrow> lineData" where
  "appendPoints3v fm ell j [] d = d"
| "appendPoints3v fm ell j (c # cs) d = appendPoints3v fm ell j cs (appendPoint3v fm ell j c d)"

text \<open>
  One round of the loop over the segments: \<open>n\<close> is \<^verbatim>\<open>path3v.length\<close>, \<open>j\<close> the
  segment's number.
\<close>

definition closeSegment :: "bool \<Rightarrow> int \<Rightarrow> lineData \<Rightarrow> lineData" where
  "closeSegment isClosed startIndex d =
     (if isClosed then pushIndexes [startIndex, startIndex + 1, startIndex + 1, startIndex + 1] d
      else pushIndexes [index d - 1, index d - 1, index d - 1, index d - 1] d)"

definition seam :: "nat \<Rightarrow> nat \<Rightarrow> lineData \<Rightarrow> lineData" where
  "seam n j d =
     (if int j < int n - 1
      then pushIndexes [index d + 8, index d + 8] (d\<lparr>index := index d + 8\<rparr>)
      else d)"

definition openSlots :: "nat \<Rightarrow> lineData \<Rightarrow> lineData" where
  "openSlots j d =
     d\<lparr>outPathLonLat := set_slot (outPathLonLat d) j [],
       outPathMerc := set_slot (outPathMerc d) j [],
       outPath3v := set_slot (outPath3v d) j []\<rparr>"

definition appendSegment3v ::
  "(lonlat \<Rightarrow> lonlat) \<Rightarrow> bool \<Rightarrow> ellipsoid option \<Rightarrow> nat \<Rightarrow> nat \<Rightarrow> point3 list \<Rightarrow> lineData
     \<Rightarrow> error + lineData" where
  "appendSegment3v fm isClosed ell n j path d0 =
     (let d = openSlots j d0;
          startIndex = index d
      in case firstCap3v isClosed path of
           Inl e \<Rightarrow> Inl e
         | Inr last' \<Rightarrow>
             (let d1 = appendPoints3v fm ell j path (pushVertex last' d)
              in case lastCap3v isClosed path of
                   Inl e \<Rightarrow> Inl e
                 | Inr first' \<Rightarrow>
                     Inr (seam n j (pushVertex first' (closeSegment isClosed startIndex d1)))))"

fun appendSegments3v ::
  "(lonlat \<Rightarrow> lonlat) \<Rightarrow> bool \<Rightarrow> ellipsoid option \<Rightarrow> nat \<Rightarrow> nat \<Rightarrow> point3 list list \<Rightarrow> lineData
     \<Rightarrow> error + lineData" where
  "appendSegments3v fm isClosed ell n j [] d = Inr d"
| "appendSegments3v fm isClosed ell n j (path # rest) d =
     (case appendSegment3v fm isClosed ell n j path d of
        Inl e \<Rightarrow> Inl e
      | Inr d' \<Rightarrow> appendSegments3v fm isClosed ell n (Suc j) rest d')"

text \<open>
  The first vertex index and the leading index pair. With earlier index data the builder
  goes on from the fifth index from the end; with one to four earlier indices that read
  is \<^verbatim>\<open>undefined\<close> and the source computes on with NaN, which the model has no value
  for: it stops with \<open>NaN_index\<close>.
\<close>

definition startLine ::
  "real option list \<Rightarrow> int list \<Rightarrow> int list \<Rightarrow> lonlat list list \<Rightarrow> vec3 list list
     \<Rightarrow> lonlat option list list \<Rightarrow> geo_extent \<Rightarrow> error + lineData" where
  "startLine vs os is pl pc pm ext =
     (let d = \<lparr>outVertices = vs, outOrders = os, outIndexes = is, outPathLonLat = pl,
               outPath3v = pc, outPathMerc = pm, outExtent = resetExtent ext, index = 0\<rparr>
      in if length is > 0 then
           (case js_nth is (int (length is) - 5) of
              None \<Rightarrow> Inl NaN_index
            | Some i \<Rightarrow> Inr (pushIndexes [i + 9, i + 9] (d\<lparr>index := i + 9\<rparr>)))
         else Inr (pushIndexes [0, 0] d))"

definition appendLineData3v ::
  "(lonlat \<Rightarrow> lonlat) \<Rightarrow> point3 list list \<Rightarrow> bool \<Rightarrow> real option list \<Rightarrow> int list \<Rightarrow> int list
     \<Rightarrow> ellipsoid option \<Rightarrow> lonlat list list \<Rightarrow> vec3 list list \<Rightarrow> lonlat option list list
     \<Rightarrow> geo_extent \<Rightarrow> error + lineData" where
  "appendLineData3v fm path3v isClosed outVs outOs outIs ell outLL out3v outMerc ext =
     (case startLine outVs outOs outIs outLL out3v outMerc ext of
        Inl e \<Rightarrow> Inl e
      | Inr d \<Rightarrow> appendSegments3v fm isClosed ell (length path3v) 0 path3v d)"

subsection \<open>From geodetic coordinates: \<^verbatim>\<open>appendLineDataLonLat\<close>\<close>

text \<open>
  \<^verbatim>\<open>ellipsoid.lonLatToCartesian(pp)\<close>, after the conversion of an array \<^verbatim>\<open>pp\<close> to a
  \<^verbatim>\<open>LonLat\<close>. The call throws when there is no ellipsoid. When \<^verbatim>\<open>pp\<close> is a point
  that is not there, the ellipsoid is handed \<^verbatim>\<open>undefined\<close> and reads its fields, which
  throws as well.
\<close>

definition toCartesian :: "ellipsoid option \<Rightarrow> lonlat option \<Rightarrow> error + vec3" where
  "toCartesian ell pp =
     (case ell of
        None \<Rightarrow> Inl TypeError
      | Some e \<Rightarrow>
          (case pp of
             None \<Rightarrow> Inl TypeError
           | Some p \<Rightarrow> Inr (lonLatToCartesian e p)))"

text \<open>The point \<^verbatim>\<open>path[i]\<close>, converted when it is an array; \<open>None\<close> when it is not there.\<close>

definition pointAt :: "pointLL list \<Rightarrow> int \<Rightarrow> lonlat option" where
  "pointAt path i = map_option toLonLat (js_nth path i)"

definition firstCapLonLat :: "bool \<Rightarrow> ellipsoid option \<Rightarrow> pointLL list \<Rightarrow> error + vec3" where
  "firstCapLonLat isClosed ell path =
     (if isClosed then toCartesian ell (pointAt path (int (length path) - 1))
      else
        (case toCartesian ell (pointAt path 0) of
           Inl e \<Rightarrow> Inl e
         | Inr p0 \<Rightarrow>
             (case toCartesian ell (pointAt path 1) of
                Inl e \<Rightarrow> Inl e
              | Inr p1 \<Rightarrow> Inr (mirror p0 p1))))"

definition lastCapLonLat :: "bool \<Rightarrow> ellipsoid option \<Rightarrow> pointLL list \<Rightarrow> error + vec3" where
  "lastCapLonLat isClosed ell path =
     (if isClosed then toCartesian ell (pointAt path 0)
      else
        (case toCartesian ell (pointAt path (int (length path) - 1)) of
           Inl e \<Rightarrow> Inl e
         | Inr p0 \<Rightarrow>
             (case toCartesian ell (pointAt path (int (length path) - 2)) of
                Inl e \<Rightarrow> Inl e
              | Inr p1 \<Rightarrow> Inr (mirror p0 p1))))"

definition appendPointLonLat ::
  "(lonlat \<Rightarrow> lonlat) \<Rightarrow> ellipsoid option \<Rightarrow> nat \<Rightarrow> pointLL \<Rightarrow> lineData \<Rightarrow> error + lineData" where
  "appendPointLonLat fm ell j c d =
     (let cur = toLonLat c
      in case toCartesian ell (Some cur) of
           Inl e \<Rightarrow> Inl e
         | Inr cartesian \<Rightarrow>
             (let d1 = d\<lparr>outPath3v := push_at (outPath3v d) j cartesian,
                         outPathLonLat := push_at (outPathLonLat d) j cur,
                         outPathMerc := push_at (outPathMerc d) j (Some (fm cur))\<rparr>;
                  d2 = pushVertex cartesian d1;
                  d3 = pushIndexes [index d2, index d2 + 1, index d2 + 2, index d2 + 3] d2;
                  d4 = d3\<lparr>index := index d3 + 4\<rparr>
              in Inr (d4\<lparr>outExtent := extendExtent (outExtent d4) cur\<rparr>)))"

fun appendPointsLonLat ::
  "(lonlat \<Rightarrow> lonlat) \<Rightarrow> ellipsoid option \<Rightarrow> nat \<Rightarrow> pointLL list \<Rightarrow> lineData \<Rightarrow> error + lineData" where
  "appendPointsLonLat fm ell j [] d = Inr d"
| "appendPointsLonLat fm ell j (c # cs) d =
     (case appendPointLonLat fm ell j c d of
        Inl e \<Rightarrow> Inl e
      | Inr d' \<Rightarrow> appendPointsLonLat fm ell j cs d')"

definition appendSegmentLonLat ::
  "(lonlat \<Rightarrow> lonlat) \<Rightarrow> bool \<Rightarrow> ellipsoid option \<Rightarrow> nat \<Rightarrow> nat \<Rightarrow> pointLL list \<Rightarrow> lineData
     \<Rightarrow> error + lineData" where
  "appendSegmentLonLat fm isClosed ell n j path d0 =
     (let startIndex = index d0;
          d = openSlots j d0
      in case firstCapLonLat isClosed ell path of
           Inl e \<Rightarrow> Inl e
         | Inr last' \<Rightarrow>
             (case appendPointsLonLat fm ell j path (pushVertex last' d) of
                Inl e \<Rightarrow> Inl e
              | Inr d1 \<Rightarrow>
                  (case lastCapLonLat isClosed ell path of
                     Inl e \<Rightarrow> Inl e
                   | Inr first' \<Rightarrow>
                       Inr (seam n j (pushVertex first' (closeSegment isClosed startIndex d1))))))"

fun appendSegmentsLonLat ::
  "(lonlat \<Rightarrow> lonlat) \<Rightarrow> bool \<Rightarrow> ellipsoid option \<Rightarrow> nat \<Rightarrow> nat \<Rightarrow> pointLL list list \<Rightarrow> lineData
     \<Rightarrow> error + lineData" where
  "appendSegmentsLonLat fm isClosed ell n j [] d = Inr d"
| "appendSegmentsLonLat fm isClosed ell n j (path # rest) d =
     (case appendSegmentLonLat fm isClosed ell n j path d of
        Inl e \<Rightarrow> Inl e
      | Inr d' \<Rightarrow> appendSegmentsLonLat fm isClosed ell n (Suc j) rest d')"

text \<open>
  The parameters in the order of the source: the Cartesian out array comes before the
  geodetic one.
\<close>

definition appendLineDataLonLat ::
  "(lonlat \<Rightarrow> lonlat) \<Rightarrow> pointLL list list \<Rightarrow> bool \<Rightarrow> real option list \<Rightarrow> int list \<Rightarrow> int list
     \<Rightarrow> ellipsoid option \<Rightarrow> vec3 list list \<Rightarrow> lonlat list list \<Rightarrow> lonlat option list list
     \<Rightarrow> geo_extent \<Rightarrow> error + lineData" where
  "appendLineDataLonLat fm pathLL isClosed outVs outOs outIs ell out3v outLL outMerc ext =
     (case startLine outVs outOs outIs outLL out3v outMerc ext of
        Inl e \<Rightarrow> Inl e
      | Inr d \<Rightarrow> appendSegmentsLonLat fm isClosed ell (length pathLL) 0 pathLL d)"

section \<open>The polyline\<close>

text \<open>
  Modelled from the spec: the graphics handler is not part of the sources at hand. The
  spec gives it \<^verbatim>\<open>createVertexBuffer(float[], componentsPerVertex) -> handle\<close>,
  \<^verbatim>\<open>createIndexBuffer(uint32[]) -> handle\<close> and \<^verbatim>\<open>deleteBuffer(handle)\<close>. A handle is
  modelled by what it was created from (the data, the item size and the item count the
  polyline passes), and the handler by the list of the calls it has received.
\<close>

datatype buffer =
  ArrayBuffer "real option list" nat real
| ElementArrayBuffer "int list" nat real

datatype glCall = DeleteBuffer "buffer option" | CreateBuffer buffer

record renderNode =
  ellipsoid :: "ellipsoid option"

text \<open>
  The fields of a \<^verbatim>\<open>Polyline\<close> that the operations below read or write. The stored
  Cartesian and geodetic points are \<^verbatim>\<open>Vec3\<close> and \<^verbatim>\<open>LonLat\<close> objects, as the builders
  store them, and no object occurs twice in a path. \<open>glCalls\<close> is the state of
  \<^verbatim>\<open>renderNode.renderer.handler\<close>.
\<close>

record polyline =
  closedLine :: bool
  path3v :: "vec3 list list"
  pathLonLat :: "lonlat list list"
  pathLonLatMerc :: "lonlat option list list"
  extent :: geo_extent
  vertices :: "real option list"
  orders :: "int list"
  indexes :: "int list"
  verticesBuffer :: "buffer option"
  ordersBuffer :: "buffer option"
  indexesBuffer :: "buffer option"
  renderNode :: "renderNode option"
  changedBuffers :: "bool list"
  glCalls :: "glCall list"

definition VERTICES_BUFFER :: nat where
  "VERTICES_BUFFER = 0"

definition INDEX_BUFFER :: nat where
  "INDEX_BUFFER = 1"

subsection \<open>Full rebuild\<close>

definition clearData :: "polyline \<Rightarrow> polyline" where
  "clearData s =
     s\<lparr>vertices := [], orders := [], indexes := [],
       path3v := [], pathLonLat := [], pathLonLatMerc := []\<rparr>"

definition storeLineData :: "lineData \<Rightarrow> polyline \<Rightarrow> polyline" where
  "storeLineData d s =
     s\<lparr>vertices := outVertices d, orders := outOrders d, indexes := outIndexes d,
       pathLonLat := outPathLonLat d, path3v := outPath3v d,
       pathLonLatMerc := outPathMerc d, extent := outExtent d\<rparr>"

definition createData3v ::
  "(lonlat \<Rightarrow> lonlat) \<Rightarrow> point3 list list \<Rightarrow> polyline \<Rightarrow> error + polyline" where
  "createData3v fm newPath s0 =
     (let s = clearData s0
      in case renderNode s of
           None \<Rightarrow> Inl TypeError
         | Some rn \<Rightarrow>
             (case appendLineData3v fm newPath (closedLine s) (vertices s) (orders s) (indexes s)
                     (ellipsoid rn) (pathLonLat s) (path3v s) (pathLonLatMerc s) (extent s) of
                Inl e \<Rightarrow> Inl e
              | Inr d \<Rightarrow> Inr (storeLineData d s)))"

definition createDataLonLat ::
  "(lonlat \<Rightarrow> lonlat) \<Rightarrow> pointLL list list \<Rightarrow> polyline \<Rightarrow> error + polyline" where
  "createDataLonLat fm newPath s0 =
     (let s = clearData s0
      in case renderNode s of
           None \<Rightarrow> Inl TypeError
         | Some rn \<Rightarrow>
             (case appendLineDataLonLat fm newPath (closedLine s) (vertices s) (orders s)
                     (indexes s) (ellipsoid rn) (path3v s) (pathLonLat s) (pathLonLatMerc s)
                     (extent s) of
                Inl e \<Rightarrow> Inl e
              | Inr d \<Rightarrow> Inr (storeLineData d s)))"

subsection \<open>Moving one point: \<^verbatim>\<open>setPoint3v\<close>\<close>

text \<open>The loop that adds up \<^verbatim>\<open>kk\<close> over the segments before \<open>segmentIndex\<close>.\<close>

fun segmentOffset :: "vec3 list list \<Rightarrow> nat \<Rightarrow> error + nat" where
  "segmentOffset paths 0 = Inr 0"
| "segmentOffset paths (Suc i) =
     (case segmentOffset paths i of
        Inl e \<Rightarrow> Inl e
      | Inr kk \<Rightarrow>
          (case js_nth paths (int i) of
             None \<Rightarrow> Inl TypeError
           | Some p \<Rightarrow> Inr (kk + (length p * 12 + 24))))"

text \<open>
  \<^verbatim>\<open>path[index].x = coordinates.x\<close> and so on; the segment or the point may not be
  there.
\<close>

definition movePoint :: "vec3 list list \<Rightarrow> nat \<Rightarrow> nat \<Rightarrow> vec3 \<Rightarrow> error + vec3 list" where
  "movePoint paths segmentIndex pointIndex coordinates =
     (case js_nth paths (int segmentIndex) of
        None \<Rightarrow> Inl TypeError
      | Some path \<Rightarrow>
          (case js_nth path (int pointIndex) of
             None \<Rightarrow> Inl TypeError
           | Some p \<Rightarrow>
               Inr (path[pointIndex :=
                      p\<lparr>vx := vx coordinates, vy := vy coordinates, vz := vz coordinates\<rparr>])))"

definition storedFirstCap :: "bool \<Rightarrow> vec3 list \<Rightarrow> error + vec3" where
  "storedFirstCap isClosed path =
     (if isClosed then
        (case js_nth path (int (length path) - 1) of
           None \<Rightarrow> Inl TypeError
         | Some l \<Rightarrow> Inr l)
      else
        (case js_nth path 0 of
           None \<Rightarrow> Inl TypeError
         | Some p0 \<Rightarrow>
             (case js_nth path 1 of
                None \<Rightarrow> Inl TypeError
              | Some p1 \<Rightarrow> Inr (mirror p0 p1))))"

definition storedLastCap :: "bool \<Rightarrow> vec3 list \<Rightarrow> error + vec3" where
  "storedLastCap isClosed path =
     (if isClosed then
        (case js_nth path 0 of
           None \<Rightarrow> Inl TypeError
         | Some f \<Rightarrow> Inr f)
      else
        (case js_nth path (int (length path) - 1) of
           None \<Rightarrow> Inl TypeError
         | Some p0 \<Rightarrow>
             (case js_nth path (int (length path) - 2) of
                None \<Rightarrow> Inl TypeError
              | Some p1 \<Rightarrow> Inr (mirror p0 p1))))"

definition writeFirstCap ::
  "bool \<Rightarrow> vec3 list \<Rightarrow> nat \<Rightarrow> nat \<Rightarrow> real option list \<Rightarrow> error + real option list" where
  "writeFirstCap isClosed path pointIndex kk v =
     (if pointIndex = 0 \<or> pointIndex = 1 then
        (case storedFirstCap isClosed path of
           Inl e \<Rightarrow> Inl e
         | Inr last' \<Rightarrow> Inr (js_write v kk (coords4 last')))
      else Inr v)"

definition writeLastCap ::
  "bool \<Rightarrow> vec3 list \<Rightarrow> nat \<Rightarrow> nat \<Rightarrow> real option list \<Rightarrow> error + real option list" where
  "writeLastCap isClosed path pointIndex kk v =
     (if int pointIndex = int (length path) - 1 \<or> int pointIndex = int (length path) - 2 then
        (case storedLastCap isClosed path of
           Inl e \<Rightarrow> Inl e
         | Inr first' \<Rightarrow> Inr (js_write v (kk + length path * 12 + 12) (coords4 first')))
      else Inr v)"

text \<open>
  The extent is computed anew from all stored geodetic points; the four comparisons
  come in another order than in the builders.
\<close>

definition scanPoint :: "geo_extent \<Rightarrow> lonlat \<Rightarrow> geo_extent" where
  "scanPoint e p =
     (let e1 = (if lon p > lon (northEast e)
                then e\<lparr>northEast := (northEast e)\<lparr>lon := lon p\<rparr>\<rparr> else e);
          e2 = (if lat p > lat (northEast e1)
                then e1\<lparr>northEast := (northEast e1)\<lparr>lat := lat p\<rparr>\<rparr> else e1);
          e3 = (if lon p < lon (southWest e2)
                then e2\<lparr>southWest := (southWest e2)\<lparr>lon := lon p\<rparr>\<rparr> else e2)
      in (if lat p < lat (southWest e3)
          then e3\<lparr>southWest := (southWest e3)\<lparr>lat := lat p\<rparr>\<rparr> else e3))"

definition scanExtent :: "lonlat list list \<Rightarrow> geo_extent \<Rightarrow> geo_extent" where
  "scanExtent l e = fold (\<lambda>pi e'. fold (\<lambda>p e''. scanPoint e'' p) pi e') l (resetExtent e)"

text \<open>
  The block under \<^verbatim>\<open>if (!forceLonLat && this._renderNode.ellipsoid)\<close>. Writing
  \<^verbatim>\<open>l[segmentIndex][index]\<close> past the end of the segment leaves a hole, and the scan
  over all points that follows throws when it reads \<^verbatim>\<open>.lon\<close> of the hole.
\<close>

definition updateLonLat ::
  "(lonlat \<Rightarrow> lonlat) \<Rightarrow> ellipsoid \<Rightarrow> vec3 \<Rightarrow> nat \<Rightarrow> nat \<Rightarrow> polyline \<Rightarrow> error + polyline" where
  "updateLonLat fm e coordinates pointIndex segmentIndex s =
     (let lonLat = cartesianToLonLat e coordinates
      in case js_nth (pathLonLat s) (int segmentIndex) of
           None \<Rightarrow> Inl TypeError
         | Some lseg \<Rightarrow>
             (case js_nth (pathLonLatMerc s) (int segmentIndex) of
                None \<Rightarrow> Inl TypeError
              | Some mseg \<Rightarrow>
                  (if pointIndex > length lseg then Inl TypeError
                   else
                     (let l = (pathLonLat s)[segmentIndex := set_slot lseg pointIndex lonLat];
                          m = (pathLonLatMerc s)
                                [segmentIndex := js_set mseg pointIndex (fm lonLat)]
                      in Inr (s\<lparr>pathLonLat := l, pathLonLatMerc := m,
                                extent := scanExtent l (extent s)\<rparr>)))))"

definition setPoint3v ::
  "(lonlat \<Rightarrow> lonlat) \<Rightarrow> vec3 \<Rightarrow> nat \<Rightarrow> nat \<Rightarrow> bool \<Rightarrow> polyline \<Rightarrow> error + polyline" where
  "setPoint3v fm coordinates pointIndex segmentIndex forceLonLat s =
     (case renderNode s of
        Some rn \<Rightarrow>
          (case segmentOffset (path3v s) segmentIndex of
             Inl e \<Rightarrow> Inl e
           | Inr kk \<Rightarrow>
               (case movePoint (path3v s) segmentIndex pointIndex coordinates of
                  Inl e \<Rightarrow> Inl e
                | Inr path \<Rightarrow>
                    (case writeFirstCap (closedLine s) path pointIndex kk (vertices s) of
                       Inl e \<Rightarrow> Inl e
                     | Inr v1 \<Rightarrow>
                         (case (if \<not> forceLonLat then
                                  (case ellipsoid rn of
                                     Some e \<Rightarrow>
                                       updateLonLat fm e coordinates pointIndex segmentIndex s
                                   | None \<Rightarrow> Inr s)
                                else Inr s) of
                            Inl e \<Rightarrow> Inl e
                          | Inr s1 \<Rightarrow>
                              (let v2 = js_write v1 (kk + pointIndex * 12 + 12)
                                          (coords4 coordinates)
                               in case writeLastCap (closedLine s) path pointIndex kk v2 of
                                    Inl e \<Rightarrow> Inl e
                                  | Inr v3 \<Rightarrow>
                                      Inr (s1\<lparr>path3v := (path3v s)[segmentIndex := path],
                                              vertices := v3,
                                              changedBuffers :=
                                                (changedBuffers s)[VERTICES_BUFFER := True]\<rparr>))))))
      | None \<Rightarrow>
          (case movePoint (path3v s) segmentIndex pointIndex coordinates of
             Inl e \<Rightarrow> Inl e
           | Inr path \<Rightarrow> Inr (s\<lparr>path3v := (path3v s)[segmentIndex := path]\<rparr>)))"

subsection \<open>Buffers\<close>

definition createVerticesBuffer :: "polyline \<Rightarrow> error + polyline" where
  "createVerticesBuffer s =
     (case renderNode s of
        None \<Rightarrow> Inl TypeError
      | Some rn \<Rightarrow>
          (let b = ArrayBuffer (vertices s) 3 (real (length (vertices s)) / 3)
           in Inr (s\<lparr>glCalls := glCalls s @ [DeleteBuffer (verticesBuffer s), CreateBuffer b],
                     verticesBuffer := Some b\<rparr>)))"

definition createIndexBuffer :: "polyline \<Rightarrow> error + polyline" where
  "createIndexBuffer s =
     (case renderNode s of
        None \<Rightarrow> Inl TypeError
      | Some rn \<Rightarrow>
          (let bo = ArrayBuffer (map (\<lambda>i. Some (real_of_int i)) (orders s)) 1
                      (real (length (orders s)) / 2);
               bi = ElementArrayBuffer (indexes s) 1 (real (length (indexes s)))
           in Inr (s\<lparr>glCalls := glCalls s @
                       [DeleteBuffer (ordersBuffer s), DeleteBuffer (indexesBuffer s),
                        CreateBuffer bo, CreateBuffer bi],
                     ordersBuffer := Some bo, indexesBuffer := Some bi\<rparr>)))"

text \<open>
  The constructor fills \<^verbatim>\<open>_buffersUpdateCallbacks\<close> at the two buffer constants; any
  other slot is \<^verbatim>\<open>undefined\<close>, and calling it throws.
\<close>

definition buffersUpdateCallbacks :: "nat \<Rightarrow> polyline \<Rightarrow> error + polyline" where
  "buffersUpdateCallbacks i =
     (if i = VERTICES_BUFFER then createVerticesBuffer
      else if i = INDEX_BUFFER then createIndexBuffer
      else (\<lambda>s. Inl TypeError))"

text \<open>
  \<^verbatim>\<open>var i = this._changedBuffers.length; while (i--) { ... }\<close>: \<open>updateLoop (Suc i)\<close>
  is the round with counter \<open>i\<close>, followed by the rounds below it.
\<close>

fun updateLoop :: "nat \<Rightarrow> polyline \<Rightarrow> error + polyline" where
  "updateLoop 0 s = Inr s"
| "updateLoop (Suc i) s =
     (if changedBuffers s ! i then
        (case buffersUpdateCallbacks i s of
           Inl e \<Rightarrow> Inl e
         | Inr s' \<Rightarrow> updateLoop i (s'\<lparr>changedBuffers := (changedBuffers s')[i := False]\<rparr>))
      else updateLoop i s)"

definition update :: "polyline \<Rightarrow> error + polyline" where
  "update s =
     (case renderNode s of
        None \<Rightarrow> Inr s
      | Some rn \<Rightarrow> updateLoop (length (changedBuffers s)) s)"

definition deleteBuffers :: "polyline \<Rightarrow> polyline" where
  "deleteBuffers s =
     (case renderNode s of
        None \<Rightarrow> s
      | Some rn \<Rightarrow>
          s\<lparr>glCalls := glCalls s @
               [DeleteBuffer (verticesBuffer s), DeleteBuffer (ordersBuffer s),
                DeleteBuffer (indexesBuffer s)],
            verticesBuffer := None, ordersBuffer := None, indexesBuffer := None\<rparr>)"

definition clear :: "polyline \<Rightarrow> polyline" where
  "clear s = deleteBuffers (s\<lparr>vertices := [], orders := [], indexes := []\<rparr>)"

subsection \<open>Construction and attachment\<close>

text \<open>
  The state the constructor leaves when it is given no path: empty arrays, no buffers,
  no render node, and both buffers marked as changed by \<^verbatim>\<open>_refresh\<close>. \<^verbatim>\<open>Extent\<close> is
  not part of the sources at hand; a new one is taken to have both corners at the
  origin.
\<close>

definition newPolyline :: "bool \<Rightarrow> polyline" where
  "newPolyline isClosed =
     \<lparr>closedLine = isClosed, path3v = [], pathLonLat = [], pathLonLatMerc = [],
      extent = \<lparr>southWest = \<lparr>lon = 0, lat = 0, height = 0\<rparr>,
                northEast = \<lparr>lon = 0, lat = 0, height = 0\<rparr>\<rparr>,
      vertices = [], orders = [], indexes = [],
      verticesBuffer = None, ordersBuffer = None, indexesBuffer = None,
      renderNode = None, changedBuffers = [True, True], glCalls = []\<rparr>"

definition setRenderNode :: "(lonlat \<Rightarrow> lonlat) \<Rightarrow> renderNode \<Rightarrow> polyline \<Rightarrow> error + polyline" where
  "setRenderNode fm rn s0 =
     (let s = s0\<lparr>renderNode := Some rn\<rparr>
      in if length (pathLonLat s) > 0
         then createDataLonLat fm (map (map ObjectLL) (pathLonLat s)) s
         else createData3v fm (map (map Vector3) (path3v s)) s)"

section \<open>The layout a build produces\<close>

text \<open>
  Closed forms of what the builders append, used to state and prove the properties
  below: the indices of a run of points, of one segment and of a whole path, the two
  cap positions of a segment, and the numbers of a segment's vertex blocks.
\<close>

fun pointIndexes :: "int \<Rightarrow> nat \<Rightarrow> int list" where
  "pointIndexes i 0 = []"
| "pointIndexes i (Suc n) = [i, i + 1, i + 2, i + 3] @ pointIndexes (i + 4) n"

definition segmentOK :: "bool \<Rightarrow> nat \<Rightarrow> bool" where
  "segmentOK isClosed n = (if isClosed then 1 \<le> n else 2 \<le> n)"

definition segmentIndexes :: "bool \<Rightarrow> bool \<Rightarrow> int \<Rightarrow> nat \<Rightarrow> int list" where
  "segmentIndexes isClosed seamed i n =
     pointIndexes i n
     @ (if isClosed then [i, i + 1, i + 1, i + 1] else [i + 4 * int n - 1, i + 4 * int n - 1, i + 4 * int n - 1, i + 4 * int n - 1])
     @ (if seamed then [i + 4 * int n + 8, i + 4 * int n + 8] else [])"

definition nextStart :: "bool \<Rightarrow> int \<Rightarrow> nat \<Rightarrow> int" where
  "nextStart seamed i n = i + 4 * int n + (if seamed then 8 else 0)"

fun pathIndexes :: "bool \<Rightarrow> nat \<Rightarrow> nat \<Rightarrow> int \<Rightarrow> nat list \<Rightarrow> int list" where
  "pathIndexes isClosed n j i [] = []"
| "pathIndexes isClosed n j i (l # ls) =
     segmentIndexes isClosed (int j < int n - 1) i l
     @ pathIndexes isClosed n (Suc j) (nextStart (int j < int n - 1) i l) ls"

fun pathEnd :: "nat \<Rightarrow> nat \<Rightarrow> int \<Rightarrow> nat list \<Rightarrow> int" where
  "pathEnd n j i [] = i"
| "pathEnd n j i (l # ls) = pathEnd n (Suc j) (nextStart (int j < int n - 1) i l) ls"

definition capBefore :: "bool \<Rightarrow> vec3 list \<Rightarrow> vec3" where
  "capBefore isClosed ps = (if isClosed then last ps else mirror (ps ! 0) (ps ! 1))"

definition capAfter :: "bool \<Rightarrow> vec3 list \<Rightarrow> vec3" where
  "capAfter isClosed ps =
     (if isClosed then ps ! 0 else mirror (ps ! (length ps - 1)) (ps ! (length ps - 2)))"

definition segmentCoords :: "bool \<Rightarrow> vec3 list \<Rightarrow> real list" where
  "segmentCoords isClosed ps =
     coords4 (capBefore isClosed ps) @ concat (map coords4 ps) @ coords4 (capAfter isClosed ps)"

text \<open>
  The index and order arrays as a function of the closed flag and the segment lengths
  alone, and the projections of a build's result that the claims compare.
\<close>

definition shapeOutput :: "bool \<Rightarrow> nat list \<Rightarrow> error + int list \<times> int list" where
  "shapeOutput isClosed ls =
     (if list_all (segmentOK isClosed) ls
      then Inr ([0, 0] @ pathIndexes isClosed (length ls) 0 0 ls,
                concat (map (\<lambda>n. concat (replicate (n + 2) orderCycle)) ls))
      else Inl TypeError)"

definition indexesAndOrders :: "error + lineData \<Rightarrow> error + int list \<times> int list" where
  "indexesAndOrders r = map_sum id (\<lambda>d. (outIndexes d, outOrders d)) r"

definition meshArrays :: "error + lineData \<Rightarrow> error + real option list \<times> int list \<times> int list" where
  "meshArrays r = map_sum id (\<lambda>d. (outVertices d, outOrders d, outIndexes d)) r"

text \<open>All geodetic points a polyline stores, across its segments.\<close>

definition storedPoints :: "polyline \<Rightarrow> lonlat list" where
  "storedPoints s = concat (pathLonLat s)"

text \<open>
  The 12 numbers of a vertex array from offset \<open>k\<close> on (\<open>None\<close> where the array has a
  hole or has ended), and the offset of a segment's first block as \<^verbatim>\<open>setPoint3v\<close> adds
  it up: \<open>length * 12 + 24\<close> for every earlier segment.
\<close>

definition blockAt :: "real option list \<Rightarrow> nat \<Rightarrow> real option list" where
  "blockAt v k = map (js_get v) [k ..< k + 12]"

definition segmentStart :: "vec3 list list \<Rightarrow> nat \<Rightarrow> nat" where
  "segmentStart paths segmentIndex =
     sum_list (map (\<lambda>p. length p * 12 + 24) (take segmentIndex paths))"

subsection \<open>Example inputs\<close>

text \<open>
  A toy ellipsoid that takes \<open>(x, y, z)\<close> to \<open>(lon, lat, height)\<close> and back, and a
  render node with and without it, for evaluating the operations on concrete inputs.
\<close>

definition exampleExtent :: geo_extent where
  "exampleExtent = extent (newPolyline False)"

definition exampleEllipsoid :: ellipsoid where
  "exampleEllipsoid =
     \<lparr>cartesianToLonLat = (\<lambda>v. \<lparr>lon = vx v, lat = vy v, height = vz v\<rparr>),
      lonLatToCartesian = (\<lambda>p. \<lparr>vx = lon p, vy = lat p, vz = height p\<rparr>)\<rparr>"

text \<open>Running one fallible operation after another.\<close>

definition thenDo :: "error + 'a \<Rightarrow> ('a \<Rightarrow> error + 'b) \<Rightarrow> error + 'b" where
  "thenDo r f = (case r of Inl e \<Rightarrow> Inl e | Inr a \<Rightarrow> f a)"

text \<open>
  A polyline attached to a render node with the toy ellipsoid and given the path
  \<open>(0,0,0), (1,0,0), (1,1,0)\<close>, and one attached to a render node without an ellipsoid
  and given no path.
\<close>

definition exampleNode :: renderNode where
  "exampleNode = \<lparr>ellipsoid = Some exampleEllipsoid\<rparr>"

definition exampleLine :: "error + polyline" where
  "exampleLine =
     thenDo (setRenderNode id exampleNode (newPolyline False))
       (createData3v id [[Array3 0 0 0, Array3 1 0 0, Array3 1 1 0]])"

definition exampleEmptyLine :: "error + polyline" where
  "exampleEmptyLine = setRenderNode id \<lparr>ellipsoid = None\<rparr> (newPolyline False)"

text \<open>The attached example polyline after its first pre-draw update.\<close>

definition exampleDrawn :: "error + polyline" where
  "exampleDrawn = thenDo exampleLine update"

subsection \<open>The pre-draw update as the spec words it\<close>

text \<open>
  The spec's \<^verbatim>\<open>ensureUpToDate()\<close> handles the vertex-buffer flag first and the
  index-buffer flag second. This is that order, for the comparison with \<open>update\<close>.
\<close>

definition updateVertexFirst :: "polyline \<Rightarrow> error + polyline" where
  "updateVertexFirst s =
     (case renderNode s of
        None \<Rightarrow> Inr s
      | Some rn \<Rightarrow>
          (case createVerticesBuffer s of
             Inl e \<Rightarrow> Inl e
           | Inr s1 \<Rightarrow>
               (case createIndexBuffer
                       (s1\<lparr>changedBuffers := (changedBuffers s1)[VERTICES_BUFFER := False]\<rparr>) of
                  Inl e \<Rightarrow> Inl e
                | Inr s2 \<Rightarrow>
                    Inr (s2\<lparr>changedBuffers := (changedBuffers s2)[INDEX_BUFFER := False]\<rparr>))))"

section \<open>Lemmas\<close>

subsection \<open>The builders\<close>

lemma js_nth_int: "js_nth xs (int k) = (if k < length xs then Some (xs ! k) else None)"
  by (simp add: js_nth_def)

lemma js_nth_0: "js_nth xs 0 = (if 0 < length xs then Some (xs ! 0) else None)"
  using js_nth_int [of xs 0] by simp

lemma js_nth_1: "js_nth xs 1 = (if 1 < length xs then Some (xs ! 1) else None)"
  using js_nth_int [of xs 1] by simp

lemma js_nth_minus1:
  "js_nth xs (int (length xs) - 1) = (if 1 \<le> length xs then Some (xs ! (length xs - 1)) else None)"
  by (cases xs) (auto simp: js_nth_def nat_diff_distrib)

lemma js_nth_minus2:
  "js_nth xs (int (length xs) - 2) = (if 2 \<le> length xs then Some (xs ! (length xs - 2)) else None)"
  by (auto simp: js_nth_def nat_diff_distrib)

lemmas js_nth_simps = js_nth_0 js_nth_1 js_nth_minus1 js_nth_minus2

lemma firstCap3v_ok:
  "segmentOK c (length path) \<Longrightarrow> firstCap3v c path = Inr (capBefore c (map toVec3 path))"
  by (auto simp: segmentOK_def firstCap3v_def capBefore_def js_nth_simps last_conv_nth split: if_splits)

lemma lastCap3v_ok:
  "segmentOK c (length path) \<Longrightarrow> lastCap3v c path = Inr (capAfter c (map toVec3 path))"
  by (auto simp: segmentOK_def lastCap3v_def capAfter_def js_nth_simps split: if_splits)

lemma firstCap3v_bad:
  "\<not> segmentOK c (length path) \<Longrightarrow> firstCap3v c path = Inl TypeError"
  by (auto simp: segmentOK_def firstCap3v_def js_nth_simps split: if_splits option.splits)

lemma appendSegment3v_bad:
  "\<not> segmentOK c (length path) \<Longrightarrow> appendSegment3v fm c ell n j path d = Inl TypeError"
  by (simp add: appendSegment3v_def firstCap3v_bad Let_def)

lemma appendPoints3v_vertices:
  "outVertices (appendPoints3v fm ell j ps d)
     = outVertices d @ map Some (concat (map (coords4 \<circ> toVec3) ps))"
  by (induction ps arbitrary: d)
     (auto simp: appendPoint3v_def pushVertex_def pushIndexes_def Let_def split: option.splits)

lemma appendPoints3v_orders:
  "outOrders (appendPoints3v fm ell j ps d)
     = outOrders d @ concat (replicate (length ps) orderCycle)"
  by (induction ps arbitrary: d)
     (auto simp: appendPoint3v_def pushVertex_def pushIndexes_def Let_def split: option.splits)

lemma appendPoints3v_index:
  "index (appendPoints3v fm ell j ps d) = index d + 4 * int (length ps)"
  by (induction ps arbitrary: d)
     (auto simp: appendPoint3v_def pushVertex_def pushIndexes_def Let_def split: option.splits)

lemma appendPoints3v_indexes:
  "outIndexes (appendPoints3v fm ell j ps d)
     = outIndexes d @ pointIndexes (index d) (length ps)"
  by (induction ps arbitrary: d)
     (auto simp: appendPoint3v_def pushVertex_def pushIndexes_def Let_def split: option.splits)

lemma concat_replicate_Suc': "concat (replicate n xs) @ xs = xs @ concat (replicate n xs)"
  by (induction n) auto

lemma appendSegment3v_ok:
  assumes "segmentOK c (length path)"
  shows "\<exists>d'. appendSegment3v fm c ell n j path d = Inr d'
          \<and> outVertices d' = outVertices d @ map Some (segmentCoords c (map toVec3 path))
          \<and> outOrders d' = outOrders d @ concat (replicate (length path + 2) orderCycle)
          \<and> outIndexes d' = outIndexes d @ segmentIndexes c (int j < int n - 1) (index d) (length path)
          \<and> index d' = nextStart (int j < int n - 1) (index d) (length path)"
  using assms
  by (simp add: appendSegment3v_def firstCap3v_ok lastCap3v_ok Let_def seam_def closeSegment_def
        pushVertex_def pushIndexes_def openSlots_def appendPoints3v_vertices appendPoints3v_orders
        appendPoints3v_index appendPoints3v_indexes segmentCoords_def segmentIndexes_def nextStart_def
        concat_replicate_Suc' map_concat comp_def)


lemma appendSegments3v_ok:
  assumes "\<forall>p \<in> set ps. segmentOK c (length p)"
  shows "\<exists>d'. appendSegments3v fm c ell n j ps d = Inr d'
          \<and> outVertices d' = outVertices d @ map Some (concat (map (\<lambda>p. segmentCoords c (map toVec3 p)) ps))
          \<and> outOrders d' = outOrders d @ concat (map (\<lambda>p. concat (replicate (length p + 2) orderCycle)) ps)
          \<and> outIndexes d' = outIndexes d @ pathIndexes c n j (index d) (map length ps)
          \<and> index d' = pathEnd n j (index d) (map length ps)"
  using assms
proof (induction ps arbitrary: j d)
  case Nil
  then show ?case by simp
next
  case (Cons p ps)
  from Cons.prems have ok: "segmentOK c (length p)" by simp
  from appendSegment3v_ok [OF ok, of fm ell n j d] obtain d1 where
    d1: "appendSegment3v fm c ell n j p d = Inr d1"
      "outVertices d1 = outVertices d @ map Some (segmentCoords c (map toVec3 p))"
      "outOrders d1 = outOrders d @ concat (replicate (length p + 2) orderCycle)"
      "outIndexes d1 = outIndexes d @ segmentIndexes c (int j < int n - 1) (index d) (length p)"
      "index d1 = nextStart (int j < int n - 1) (index d) (length p)"
    by blast
  from Cons.prems have "\<forall>p \<in> set ps. segmentOK c (length p)" by simp
  from Cons.IH [OF this, of "Suc j" d1] obtain d2 where
    d2: "appendSegments3v fm c ell n (Suc j) ps d1 = Inr d2"
      "outVertices d2 = outVertices d1 @ map Some (concat (map (\<lambda>p. segmentCoords c (map toVec3 p)) ps))"
      "outOrders d2 = outOrders d1 @ concat (map (\<lambda>p. concat (replicate (length p + 2) orderCycle)) ps)"
      "outIndexes d2 = outIndexes d1 @ pathIndexes c n (Suc j) (index d1) (map length ps)"
      "index d2 = pathEnd n (Suc j) (index d1) (map length ps)"
    by blast
  show ?case using d1 d2 by simp
qed

lemma appendSegments3v_bad:
  assumes "\<exists>p \<in> set ps. \<not> segmentOK c (length p)"
  shows "appendSegments3v fm c ell n j ps d = Inl TypeError"
  using assms
proof (induction ps arbitrary: j d)
  case Nil
  then show ?case by simp
next
  case (Cons p ps)
  show ?case
  proof (cases "segmentOK c (length p)")
    case False
    then show ?thesis by (simp add: appendSegment3v_bad)
  next
    case True
    from appendSegment3v_ok [OF True, of fm ell n j d] obtain d1 where
      d1: "appendSegment3v fm c ell n j p d = Inr d1" by blast
    from Cons.prems True have "\<exists>p \<in> set ps. \<not> segmentOK c (length p)" by auto
    from Cons.IH [OF this] d1 show ?thesis by simp
  qed
qed

lemma startLine_empty:
  "startLine [] [] [] pl pc pm ext =
     Inr \<lparr>outVertices = [], outOrders = [], outIndexes = [0, 0], outPathLonLat = pl,
          outPath3v = pc, outPathMerc = pm, outExtent = resetExtent ext, index = 0\<rparr>"
  by (simp add: startLine_def pushIndexes_def)

lemma appendLineData3v_ok:
  assumes "\<forall>p \<in> set ps. segmentOK c (length p)"
  shows "\<exists>d. appendLineData3v fm ps c [] [] [] ell pl pc pm ext = Inr d
          \<and> outVertices d = map Some (concat (map (\<lambda>p. segmentCoords c (map toVec3 p)) ps))
          \<and> outOrders d = concat (map (\<lambda>p. concat (replicate (length p + 2) orderCycle)) ps)
          \<and> outIndexes d = [0, 0] @ pathIndexes c (length ps) 0 0 (map length ps)"
  using appendSegments3v_ok [OF assms, of fm ell "length ps" 0
      "\<lparr>outVertices = [], outOrders = [], outIndexes = [0, 0], outPathLonLat = pl,
          outPath3v = pc, outPathMerc = pm, outExtent = resetExtent ext, index = 0\<rparr>"]
  by (auto simp: appendLineData3v_def startLine_empty)

lemma appendLineData3v_bad:
  assumes "\<exists>p \<in> set ps. \<not> segmentOK c (length p)"
  shows "appendLineData3v fm ps c [] [] [] ell pl pc pm ext = Inl TypeError"
  by (simp add: appendLineData3v_def startLine_empty appendSegments3v_bad [OF assms])


lemma pointAt_simps:
  "pointAt xs 0 = (if 0 < length xs then Some (toLonLat (xs ! 0)) else None)"
  "pointAt xs 1 = (if 1 < length xs then Some (toLonLat (xs ! 1)) else None)"
  "pointAt xs (int (length xs) - 1) = (if 1 \<le> length xs then Some (toLonLat (xs ! (length xs - 1))) else None)"
  "pointAt xs (int (length xs) - 2) = (if 2 \<le> length xs then Some (toLonLat (xs ! (length xs - 2))) else None)"
  by (simp_all add: pointAt_def js_nth_simps)

lemma firstCapLonLat_ok:
  "segmentOK c (length path) \<Longrightarrow>
   firstCapLonLat c (Some e) path = Inr (capBefore c (map (\<lambda>p. lonLatToCartesian e (toLonLat p)) path))"
  by (auto simp: segmentOK_def firstCapLonLat_def capBefore_def pointAt_simps toCartesian_def
        last_conv_nth split: if_splits)

lemma lastCapLonLat_ok:
  "segmentOK c (length path) \<Longrightarrow>
   lastCapLonLat c (Some e) path = Inr (capAfter c (map (\<lambda>p. lonLatToCartesian e (toLonLat p)) path))"
  by (auto simp: segmentOK_def lastCapLonLat_def capAfter_def pointAt_simps toCartesian_def
        split: if_splits)

lemma firstCapLonLat_bad:
  "\<not> segmentOK c (length path) \<Longrightarrow> firstCapLonLat c ell path = Inl TypeError"
  by (auto simp: segmentOK_def firstCapLonLat_def pointAt_simps toCartesian_def
        split: if_splits option.splits sum.splits)

lemma firstCapLonLat_None: "firstCapLonLat c None path = Inl TypeError"
  by (simp add: firstCapLonLat_def toCartesian_def)

lemma appendSegmentLonLat_bad:
  "\<not> segmentOK c (length path) \<Longrightarrow> appendSegmentLonLat fm c ell n j path d = Inl TypeError"
  by (simp add: appendSegmentLonLat_def firstCapLonLat_bad Let_def)

lemma appendSegmentLonLat_None:
  "appendSegmentLonLat fm c None n j path d = Inl TypeError"
  by (simp add: appendSegmentLonLat_def firstCapLonLat_None Let_def)

lemma appendPointsLonLat_ok:
  "\<exists>d'. appendPointsLonLat fm (Some e) j ps d = Inr d'
     \<and> outVertices d' = outVertices d @ map Some (concat (map (\<lambda>p. coords4 (lonLatToCartesian e (toLonLat p))) ps))
     \<and> outOrders d' = outOrders d @ concat (replicate (length ps) orderCycle)
     \<and> outIndexes d' = outIndexes d @ pointIndexes (index d) (length ps)
     \<and> index d' = index d + 4 * int (length ps)"
proof (induction ps arbitrary: d)
  case Nil
  then show ?case by simp
next
  case (Cons p ps)
  obtain d1 where d1: "appendPointLonLat fm (Some e) j p d = Inr d1"
    "outVertices d1 = outVertices d @ map Some (coords4 (lonLatToCartesian e (toLonLat p)))"
    "outOrders d1 = outOrders d @ orderCycle"
    "outIndexes d1 = outIndexes d @ [index d, index d + 1, index d + 2, index d + 3]"
    "index d1 = index d + 4"
    by (simp add: appendPointLonLat_def toCartesian_def pushVertex_def pushIndexes_def Let_def)
  from Cons.IH [of d1] obtain d2 where d2: "appendPointsLonLat fm (Some e) j ps d1 = Inr d2"
     "outVertices d2 = outVertices d1 @ map Some (concat (map (\<lambda>p. coords4 (lonLatToCartesian e (toLonLat p))) ps))"
     "outOrders d2 = outOrders d1 @ concat (replicate (length ps) orderCycle)"
     "outIndexes d2 = outIndexes d1 @ pointIndexes (index d1) (length ps)"
     "index d2 = index d1 + 4 * int (length ps)"
    by blast
  show ?case using d1 d2 by simp
qed

lemma appendSegmentLonLat_ok:
  assumes "segmentOK c (length path)"
  shows "\<exists>d'. appendSegmentLonLat fm c (Some e) n j path d = Inr d'
          \<and> outVertices d' = outVertices d @ map Some (segmentCoords c (map (\<lambda>p. lonLatToCartesian e (toLonLat p)) path))
          \<and> outOrders d' = outOrders d @ concat (replicate (length path + 2) orderCycle)
          \<and> outIndexes d' = outIndexes d @ segmentIndexes c (int j < int n - 1) (index d) (length path)
          \<and> index d' = nextStart (int j < int n - 1) (index d) (length path)"
proof -
  let ?d0 = "pushVertex (capBefore c (map (\<lambda>p. lonLatToCartesian e (toLonLat p)) path)) (openSlots j d)"
  from appendPointsLonLat_ok [of fm e j path ?d0] obtain d1 where
    d1: "appendPointsLonLat fm (Some e) j path ?d0 = Inr d1"
     "outVertices d1 = outVertices ?d0 @ map Some (concat (map (\<lambda>p. coords4 (lonLatToCartesian e (toLonLat p))) path))"
     "outOrders d1 = outOrders ?d0 @ concat (replicate (length path) orderCycle)"
     "outIndexes d1 = outIndexes ?d0 @ pointIndexes (index ?d0) (length path)"
     "index d1 = index ?d0 + 4 * int (length path)"
    by blast
  show ?thesis using assms d1
    by (simp add: appendSegmentLonLat_def firstCapLonLat_ok lastCapLonLat_ok Let_def seam_def closeSegment_def
        pushVertex_def pushIndexes_def openSlots_def segmentCoords_def segmentIndexes_def nextStart_def
        concat_replicate_Suc' map_concat comp_def)
qed

lemma appendSegmentsLonLat_ok:
  assumes "\<forall>p \<in> set ps. segmentOK c (length p)"
  shows "\<exists>d'. appendSegmentsLonLat fm c (Some e) n j ps d = Inr d'
          \<and> outVertices d' = outVertices d @ map Some (concat (map (\<lambda>p. segmentCoords c (map (\<lambda>p. lonLatToCartesian e (toLonLat p)) p)) ps))
          \<and> outOrders d' = outOrders d @ concat (map (\<lambda>p. concat (replicate (length p + 2) orderCycle)) ps)
          \<and> outIndexes d' = outIndexes d @ pathIndexes c n j (index d) (map length ps)
          \<and> index d' = pathEnd n j (index d) (map length ps)"
  using assms
proof (induction ps arbitrary: j d)
  case Nil
  then show ?case by simp
next
  case (Cons p ps)
  from Cons.prems have ok: "segmentOK c (length p)" by simp
  from appendSegmentLonLat_ok [OF ok, of fm e n j d] obtain d1 where
    d1: "appendSegmentLonLat fm c (Some e) n j p d = Inr d1"
      "outVertices d1 = outVertices d @ map Some (segmentCoords c (map (\<lambda>p. lonLatToCartesian e (toLonLat p)) p))"
      "outOrders d1 = outOrders d @ concat (replicate (length p + 2) orderCycle)"
      "outIndexes d1 = outIndexes d @ segmentIndexes c (int j < int n - 1) (index d) (length p)"
      "index d1 = nextStart (int j < int n - 1) (index d) (length p)"
    by blast
  from Cons.prems have "\<forall>p \<in> set ps. segmentOK c (length p)" by simp
  from Cons.IH [OF this, of "Suc j" d1] obtain d2 where
    d2: "appendSegmentsLonLat fm c (Some e) n (Suc j) ps d1 = Inr d2"
      "outVertices d2 = outVertices d1 @ map Some (concat (map (\<lambda>p. segmentCoords c (map (\<lambda>p. lonLatToCartesian e (toLonLat p)) p)) ps))"
      "outOrders d2 = outOrders d1 @ concat (map (\<lambda>p. concat (replicate (length p + 2) orderCycle)) ps)"
      "outIndexes d2 = outIndexes d1 @ pathIndexes c n (Suc j) (index d1) (map length ps)"
      "index d2 = pathEnd n (Suc j) (index d1) (map length ps)"
    by blast
  show ?case using d1 d2 by simp
qed

lemma appendSegmentsLonLat_bad:
  assumes "\<exists>p \<in> set ps. \<not> segmentOK c (length p)"
  shows "appendSegmentsLonLat fm c ell n j ps d = Inl TypeError"
  using assms
proof (induction ps arbitrary: j d)
  case Nil
  then show ?case by simp
next
  case (Cons p ps)
  show ?case
  proof (cases "segmentOK c (length p) \<and> ell \<noteq> None")
    case False
    then show ?thesis by (auto simp: appendSegmentLonLat_bad appendSegmentLonLat_None)
  next
    case True
    then obtain e where e: "ell = Some e" and ok: "segmentOK c (length p)" by auto
    from appendSegmentLonLat_ok [OF ok, of fm e n j d] obtain d1 where
      d1: "appendSegmentLonLat fm c (Some e) n j p d = Inr d1" by blast
    from Cons.prems ok have "\<exists>p \<in> set ps. \<not> segmentOK c (length p)" by auto
    from Cons.IH [OF this] d1 e show ?thesis by simp
  qed
qed

lemma appendLineDataLonLat_ok:
  assumes "\<forall>p \<in> set ps. segmentOK c (length p)"
  shows "\<exists>d. appendLineDataLonLat fm ps c [] [] [] (Some e) pc pl pm ext = Inr d
          \<and> outVertices d = map Some (concat (map (\<lambda>p. segmentCoords c (map (\<lambda>p. lonLatToCartesian e (toLonLat p)) p)) ps))
          \<and> outOrders d = concat (map (\<lambda>p. concat (replicate (length p + 2) orderCycle)) ps)
          \<and> outIndexes d = [0, 0] @ pathIndexes c (length ps) 0 0 (map length ps)"
  using appendSegmentsLonLat_ok [OF assms, of fm e "length ps" 0
      "\<lparr>outVertices = [], outOrders = [], outIndexes = [0, 0], outPathLonLat = pl,
          outPath3v = pc, outPathMerc = pm, outExtent = resetExtent ext, index = 0\<rparr>"]
  by (auto simp: appendLineDataLonLat_def startLine_empty)

lemma appendLineDataLonLat_bad:
  assumes "\<exists>p \<in> set ps. \<not> segmentOK c (length p)"
  shows "appendLineDataLonLat fm ps c [] [] [] ell pc pl pm ext = Inl TypeError"
  by (simp add: appendLineDataLonLat_def startLine_empty appendSegmentsLonLat_bad [OF assms])

lemma length_coords4: "length (coords4 p) = 12"
  by (simp add: coords4_def)

lemma length_segmentCoords: "length (segmentCoords c ps) = 12 * (length ps + 2)"
  by (induction ps) (simp_all add: segmentCoords_def length_coords4 length_concat comp_def sum_list_triv)

lemma length_pointIndexes: "length (pointIndexes i n) = 4 * n"
  by (induction n arbitrary: i) simp_all

lemma length_segmentIndexes:
  "length (segmentIndexes c seamed i n) = 4 * n + 4 + (if seamed then 2 else 0)"
  by (simp add: segmentIndexes_def length_pointIndexes)

lemma length_pathIndexes:
  "ls \<noteq> [] \<Longrightarrow> j + length ls = n \<Longrightarrow>
   length (pathIndexes c n j i ls) + 2 = 4 * sum_list ls + 6 * length ls"
proof (induction ls arbitrary: j i)
  case Nil
  then show ?case by simp
next
  case (Cons l ls)
  show ?case
  proof (cases "ls = []")
    case True
    with Cons.prems show ?thesis by (auto simp: length_segmentIndexes)
  next
    case False
    with Cons.prems have seamed: "int j < int n - 1" by (cases ls) auto
    from Cons.prems have "Suc j + length ls = n" by simp
    from Cons.IH [OF False this] seamed show ?thesis
      by (simp add: length_segmentIndexes)
  qed
qed

lemma segmentOK_open: "segmentOK False n = (2 \<le> n)"
  by (simp add: segmentOK_def)

lemma segmentOK_closed: "segmentOK True n = (1 \<le> n)"
  by (simp add: segmentOK_def)

lemma coords4_replicate: "coords4 p = concat (replicate 4 [vx p, vy p, vz p])"
  by (simp add: coords4_def eval_nat_numeral)

lemma length_concat_segmentCoords:
  "length (concat (map (\<lambda>p. segmentCoords c (f p)) pre))
     = 12 * sum_list (map (\<lambda>p. length (f p) + 2) pre)"
  by (induction pre) (simp_all add: length_segmentCoords)

lemma first_block:
  assumes "length A = off"
  shows "take 12 (drop off (map Some (A @ segmentCoords c S @ B))) = map Some (coords4 (capBefore c S))"
  using assms by (simp add: segmentCoords_def length_coords4 drop_map take_map)

lemma last_block:
  assumes "length A = off"
  shows "take 12 (drop (off + 12 * length S + 12) (map Some (A @ segmentCoords c S @ B)))
           = map Some (coords4 (capAfter c S))"
proof -
  have len: "length (concat (map coords4 S)) = 12 * length S"
    by (induction S) (simp_all add: length_coords4)
  have "drop (off + 12 * length S + 12) (A @ segmentCoords c S @ B) = coords4 (capAfter c S) @ B"
    using assms len by (simp add: segmentCoords_def length_coords4)
  then have "take 12 (drop (off + 12 * length S + 12) (A @ segmentCoords c S @ B))
      = coords4 (capAfter c S)"
    by (simp add: length_coords4)
  then show ?thesis by (simp only: drop_map take_map)
qed

lemma point_block:
  assumes "length A = off" and "i < length S"
  shows "take 12 (drop (off + 12 * i + 12) (map Some (A @ segmentCoords c S @ B)))
           = map Some (coords4 (S ! i))"
proof -
  have len: "\<And>xs. length (concat (map coords4 xs)) = 12 * length xs"
    subgoal for xs by (induction xs) (simp_all add: length_coords4)
    done
  from assms(2) have S: "S = take i S @ S ! i # drop (Suc i) S"
    by (simp add: id_take_nth_drop)
  have "concat (map coords4 S)
      = concat (map coords4 (take i S)) @ coords4 (S ! i) @ concat (map coords4 (drop (Suc i) S))"
    by (subst S) simp
  moreover have "length (concat (map coords4 (take i S))) = 12 * i"
    using assms(2) by (simp add: len)
  ultimately have "drop (off + 12 * i + 12) (A @ segmentCoords c S @ B)
      = coords4 (S ! i) @ concat (map coords4 (drop (Suc i) S)) @ coords4 (capAfter c S) @ B"
    using assms(1) by (simp add: segmentCoords_def length_coords4)
  then have "take 12 (drop (off + 12 * i + 12) (A @ segmentCoords c S @ B)) = coords4 (S ! i)"
    by (simp add: length_coords4)
  then show ?thesis by (simp only: drop_map take_map)
qed

lemma capBefore_open: "capBefore False S = mirror (S ! 0) (S ! 1)"
  by (simp add: capBefore_def)

lemma capAfter_open: "capAfter False S = mirror (S ! (length S - 1)) (S ! (length S - 2))"
  by (simp add: capAfter_def)

lemma capBefore_closed: "S \<noteq> [] \<Longrightarrow> capBefore True S = S ! (length S - 1)"
  by (simp add: capBefore_def last_conv_nth)

lemma capAfter_closed: "capAfter True S = S ! 0"
  by (simp add: capAfter_def)

lemma mirror_twice:
  "mirror p0 p1 = \<lparr>vx = 2 * vx p0 - vx p1, vy = 2 * vy p0 - vy p1, vz = 2 * vz p0 - vz p1\<rparr>"
  by (simp add: mirror_def)

lemma coords4_mirror:
  "coords4 (mirror p0 p1)
     = concat (replicate 4 [2 * vx p0 - vx p1, 2 * vy p0 - vy p1, 2 * vz p0 - vz p1])"
  by (simp add: coords4_def mirror_def eval_nat_numeral)

lemma concat_replicate_orderCycle:
  "concat (map (\<lambda>p. concat (replicate (length p + 2) orderCycle)) [seg])
     = concat (replicate (length seg + 2) [1, - 1, 2, - 2])"
  by (simp add: orderCycle_def)

lemma indexesAndOrders_3v:
  "indexesAndOrders (appendLineData3v fm ps c [] [] [] ell pl pc pm ext) = shapeOutput c (map length ps)"
proof (cases "\<forall>p \<in> set ps. segmentOK c (length p)")
  case True
  from appendLineData3v_ok [OF True, of fm ell pl pc pm ext] obtain d where
    "appendLineData3v fm ps c [] [] [] ell pl pc pm ext = Inr d"
    "outOrders d = concat (map (\<lambda>p. concat (replicate (length p + 2) orderCycle)) ps)"
    "outIndexes d = [0, 0] @ pathIndexes c (length ps) 0 0 (map length ps)"
    by blast
  with True show ?thesis
    by (simp add: indexesAndOrders_def shapeOutput_def list_all_iff comp_def)
next
  case False
  then have "\<exists>p \<in> set ps. \<not> segmentOK c (length p)" by simp
  from appendLineData3v_bad [OF this] False show ?thesis
    by (simp add: indexesAndOrders_def shapeOutput_def list_all_iff)
qed

lemma indexesAndOrders_LonLat:
  "indexesAndOrders (appendLineDataLonLat fm ps c [] [] [] (Some e) pc pl pm ext)
     = shapeOutput c (map length ps)"
proof (cases "\<forall>p \<in> set ps. segmentOK c (length p)")
  case True
  from appendLineDataLonLat_ok [OF True, of fm e pc pl pm ext] obtain d where
    "appendLineDataLonLat fm ps c [] [] [] (Some e) pc pl pm ext = Inr d"
    "outOrders d = concat (map (\<lambda>p. concat (replicate (length p + 2) orderCycle)) ps)"
    "outIndexes d = [0, 0] @ pathIndexes c (length ps) 0 0 (map length ps)"
    by blast
  with True show ?thesis
    by (simp add: indexesAndOrders_def shapeOutput_def list_all_iff comp_def)
next
  case False
  then have "\<exists>p \<in> set ps. \<not> segmentOK c (length p)" by simp
  from appendLineDataLonLat_bad [OF this] False show ?thesis
    by (simp add: indexesAndOrders_def shapeOutput_def list_all_iff)
qed

lemma caps_of_layout:
  assumes v: "v = map Some (concat (map (\<lambda>p. segmentCoords c (f p)) (pre @ seg # post)))"
    and len: "\<And>p. length (f p) = length p"
  shows "take 12 (drop (12 * sum_list (map (\<lambda>p. length p + 2) pre)) v)
           = map Some (coords4 (capBefore c (f seg)))"
    and "take 12 (drop (12 * sum_list (map (\<lambda>p. length p + 2) pre) + 12 * length seg + 12) v)
           = map Some (coords4 (capAfter c (f seg)))"
proof -
  let ?A = "concat (map (\<lambda>p. segmentCoords c (f p)) pre)"
  let ?B = "concat (map (\<lambda>p. segmentCoords c (f p)) post)"
  have v': "v = map Some (?A @ segmentCoords c (f seg) @ ?B)"
    using v by simp
  have A: "length ?A = 12 * sum_list (map (\<lambda>p. length p + 2) pre)"
    by (simp add: length_concat_segmentCoords len)
  show "take 12 (drop (12 * sum_list (map (\<lambda>p. length p + 2) pre)) v)
           = map Some (coords4 (capBefore c (f seg)))"
    unfolding v' by (rule first_block [OF A])
  have "take 12 (drop (12 * sum_list (map (\<lambda>p. length p + 2) pre) + 12 * length (f seg) + 12) v)
           = map Some (coords4 (capAfter c (f seg)))"
    unfolding v' by (rule last_block [OF A])
  then show "take 12 (drop (12 * sum_list (map (\<lambda>p. length p + 2) pre) + 12 * length seg + 12) v)
           = map Some (coords4 (capAfter c (f seg)))"
    by (simp only: len)
qed

lemma clearData_simps:
  "vertices (clearData s) = []" "orders (clearData s) = []" "indexes (clearData s) = []"
  "path3v (clearData s) = []" "pathLonLat (clearData s) = []" "pathLonLatMerc (clearData s) = []"
  "closedLine (clearData s) = closedLine s" "renderNode (clearData s) = renderNode s"
  "extent (clearData s) = extent s" "changedBuffers (clearData s) = changedBuffers s"
  "glCalls (clearData s) = glCalls s"
  by (simp_all add: clearData_def)

subsection \<open>The extent\<close>

lemma scanPoint_extendExtent: "scanPoint e p = extendExtent e p"
  by (simp add: scanPoint_def extendExtent_def Let_def)

lemma fold_fold_concat: "fold (\<lambda>xs a. fold f xs a) xss a = fold f (concat xss) a"
  by (induction xss arbitrary: a) simp_all

lemma scanExtent_fold:
  "scanExtent l e = fold (\<lambda>p x. extendExtent x p) (concat l) (resetExtent e)"
  by (simp add: scanExtent_def scanPoint_extendExtent fold_fold_concat)

lemma extendExtent_corners:
  "lon (southWest (extendExtent e p)) = min (lon p) (lon (southWest e))"
  "lat (southWest (extendExtent e p)) = min (lat p) (lat (southWest e))"
  "lon (northEast (extendExtent e p)) = max (lon p) (lon (northEast e))"
  "lat (northEast (extendExtent e p)) = max (lat p) (lat (northEast e))"
  by (simp_all add: extendExtent_def Let_def min_def max_def)

lemma fold_extendExtent:
  "lon (southWest (fold (\<lambda>p x. extendExtent x p) ps e)) = fold min (map lon ps) (lon (southWest e))"
  "lat (southWest (fold (\<lambda>p x. extendExtent x p) ps e)) = fold min (map lat ps) (lat (southWest e))"
  "lon (northEast (fold (\<lambda>p x. extendExtent x p) ps e)) = fold max (map lon ps) (lon (northEast e))"
  "lat (northEast (fold (\<lambda>p x. extendExtent x p) ps e)) = fold max (map lat ps) (lat (northEast e))"
  by (induction ps arbitrary: e) (simp_all add: extendExtent_corners)

lemma resetExtent_corners:
  "lon (southWest (resetExtent e)) = 180" "lat (southWest (resetExtent e)) = 90"
  "lon (northEast (resetExtent e)) = - 180" "lat (northEast (resetExtent e)) = - 90"
  by (simp_all add: resetExtent_def set_lonlat_def)

lemma fold_min_Min: "fold min xs (a :: real) = Min (insert a (set xs))"
  using Min.set_eq_fold [of a xs] by simp

lemma fold_max_Max: "fold max xs (a :: real) = Max (insert a (set xs))"
  using Max.set_eq_fold [of a xs] by simp

lemma extent_of_fold:
  assumes "ex = fold (\<lambda>p x. extendExtent x p) ps (resetExtent e0)"
  shows "lon (southWest ex) = Min (insert 180 (lon ` set ps))"
    and "lat (southWest ex) = Min (insert 90 (lat ` set ps))"
    and "lon (northEast ex) = Max (insert (- 180) (lon ` set ps))"
    and "lat (northEast ex) = Max (insert (- 90) (lat ` set ps))"
  by (simp_all add: assms fold_extendExtent resetExtent_corners fold_min_Min fold_max_Max)


lemma geo_frame:
  "outPathLonLat (pushVertex p d) = outPathLonLat d" "outExtent (pushVertex p d) = outExtent d"
  "outPathLonLat (pushIndexes is d) = outPathLonLat d" "outExtent (pushIndexes is d) = outExtent d"
  "outPathLonLat (closeSegment c i d) = outPathLonLat d" "outExtent (closeSegment c i d) = outExtent d"
  "outPathLonLat (seam n j d) = outPathLonLat d" "outExtent (seam n j d) = outExtent d"
  "outExtent (openSlots j d) = outExtent d"
  by (simp_all add: pushVertex_def pushIndexes_def closeSegment_def seam_def openSlots_def)

lemma openSlots_new:
  "length (outPathLonLat d) = j \<Longrightarrow> outPathLonLat (openSlots j d) = outPathLonLat d @ [[]]"
  by (simp add: openSlots_def set_slot_def)

lemma appendPoints3v_geo:
  assumes "j < length (outPathLonLat d)"
  shows "outPathLonLat (appendPoints3v fm (Some e) j ps d)
           = (outPathLonLat d)[j := outPathLonLat d ! j @ map (\<lambda>p. cartesianToLonLat e (toVec3 p)) ps]
         \<and> outExtent (appendPoints3v fm (Some e) j ps d)
           = fold (\<lambda>p x. extendExtent x p) (map (\<lambda>p. cartesianToLonLat e (toVec3 p)) ps) (outExtent d)"
  using assms
proof (induction ps arbitrary: d)
  case Nil
  then show ?case by simp
next
  case (Cons p ps)
  let ?d1 = "appendPoint3v fm (Some e) j p d"
  have d1: "outPathLonLat ?d1 = push_at (outPathLonLat d) j (cartesianToLonLat e (toVec3 p))"
    "outExtent ?d1 = extendExtent (outExtent d) (cartesianToLonLat e (toVec3 p))"
    by (simp_all add: appendPoint3v_def pushVertex_def pushIndexes_def Let_def)
  with Cons.prems have "j < length (outPathLonLat ?d1)"
    by (simp add: push_at_def)
  from Cons.IH [OF this] Cons.prems show ?case
    by (simp add: d1 push_at_def)
qed

lemma appendSegment3v_geo:
  assumes "length (outPathLonLat d) = j"
    and "appendSegment3v fm c (Some e) n j path d = Inr d'"
  shows "outPathLonLat d' = outPathLonLat d @ [map (\<lambda>p. cartesianToLonLat e (toVec3 p)) path]
         \<and> outExtent d'
           = fold (\<lambda>p x. extendExtent x p) (map (\<lambda>p. cartesianToLonLat e (toVec3 p)) path) (outExtent d)"
proof -
  from assms(2) obtain l f where
    d': "d' = seam n j (pushVertex f (closeSegment c (index (openSlots j d))
              (appendPoints3v fm (Some e) j path (pushVertex l (openSlots j d)))))"
    by (auto simp: appendSegment3v_def Let_def split: sum.splits)
  let ?d0 = "pushVertex l (openSlots j d)"
  have o: "outPathLonLat ?d0 = outPathLonLat d @ [[]]" "outExtent ?d0 = outExtent d"
    using assms(1) by (simp_all add: geo_frame openSlots_new)
  then have "j < length (outPathLonLat ?d0)"
    using assms(1) by simp
  moreover have "outPathLonLat (openSlots j d) = outPathLonLat d @ [[]]"
    using assms(1) by (rule openSlots_new)
  ultimately show ?thesis
    using appendPoints3v_geo [of j ?d0 fm e path] by (simp add: d' geo_frame flip: assms(1))
qed

lemma appendSegments3v_geo:
  assumes "length (outPathLonLat d) = j"
    and "appendSegments3v fm c (Some e) n j ps d = Inr d'"
  shows "outPathLonLat d' = outPathLonLat d @ map (map (\<lambda>p. cartesianToLonLat e (toVec3 p))) ps
         \<and> outExtent d'
           = fold (\<lambda>p x. extendExtent x p)
               (concat (map (map (\<lambda>p. cartesianToLonLat e (toVec3 p))) ps)) (outExtent d)"
  using assms
proof (induction ps arbitrary: j d)
  case Nil
  then show ?case by simp
next
  case (Cons p ps)
  from Cons.prems(2) obtain d1 where
    d1: "appendSegment3v fm c (Some e) n j p d = Inr d1"
      "appendSegments3v fm c (Some e) n (Suc j) ps d1 = Inr d'"
    by (auto split: sum.splits)
  from appendSegment3v_geo [OF Cons.prems(1) d1(1)] have
    g1: "outPathLonLat d1 = outPathLonLat d @ [map (\<lambda>p. cartesianToLonLat e (toVec3 p)) p]"
      "outExtent d1
         = fold (\<lambda>p x. extendExtent x p) (map (\<lambda>p. cartesianToLonLat e (toVec3 p)) p) (outExtent d)"
    by simp_all
  with Cons.prems(1) have "length (outPathLonLat d1) = Suc j" by simp
  from Cons.IH [OF this d1(2)] show ?case
    by (simp add: g1)
qed

lemma appendLineData3v_geo:
  assumes "appendLineData3v fm ps c [] [] [] (Some e) [] pc pm ext = Inr d"
  shows "outPathLonLat d = map (map (\<lambda>p. cartesianToLonLat e (toVec3 p))) ps
         \<and> outExtent d = fold (\<lambda>p x. extendExtent x p) (concat (outPathLonLat d)) (resetExtent ext)"
proof -
  let ?d0 = "\<lparr>outVertices = [], outOrders = [], outIndexes = [0, 0], outPathLonLat = [],
          outPath3v = pc, outPathMerc = pm, outExtent = resetExtent ext, index = 0\<rparr>"
  from assms have "appendSegments3v fm c (Some e) (length ps) 0 ps ?d0 = Inr d"
    by (simp add: appendLineData3v_def startLine_empty)
  from appendSegments3v_geo [OF _ this] show ?thesis by simp
qed

lemma appendPointsLonLat_geo:
  assumes "j < length (outPathLonLat d)"
    and "appendPointsLonLat fm ell j ps d = Inr d'"
  shows "outPathLonLat d' = (outPathLonLat d)[j := outPathLonLat d ! j @ map toLonLat ps]
         \<and> outExtent d' = fold (\<lambda>p x. extendExtent x p) (map toLonLat ps) (outExtent d)"
  using assms
proof (induction ps arbitrary: d)
  case Nil
  then show ?case by simp
next
  case (Cons p ps)
  from Cons.prems(2) obtain d1 where
    d1: "appendPointLonLat fm ell j p d = Inr d1" "appendPointsLonLat fm ell j ps d1 = Inr d'"
    by (auto split: sum.splits)
  from d1(1) have g1: "outPathLonLat d1 = push_at (outPathLonLat d) j (toLonLat p)"
    "outExtent d1 = extendExtent (outExtent d) (toLonLat p)"
    by (auto simp: appendPointLonLat_def pushVertex_def pushIndexes_def Let_def split: sum.splits)
  with Cons.prems(1) have "j < length (outPathLonLat d1)"
    by (simp add: push_at_def)
  from Cons.IH [OF this d1(2)] Cons.prems(1) show ?case
    by (simp add: g1 push_at_def)
qed

lemma appendSegmentLonLat_geo:
  assumes "length (outPathLonLat d) = j"
    and "appendSegmentLonLat fm c ell n j path d = Inr d'"
  shows "outPathLonLat d' = outPathLonLat d @ [map toLonLat path]
         \<and> outExtent d' = fold (\<lambda>p x. extendExtent x p) (map toLonLat path) (outExtent d)"
proof -
  from assms(2) obtain l f d1 where
    d1: "appendPointsLonLat fm ell j path (pushVertex l (openSlots j d)) = Inr d1"
    and d': "d' = seam n j (pushVertex f (closeSegment c (index d) d1))"
    by (auto simp: appendSegmentLonLat_def Let_def split: sum.splits)
  let ?d0 = "pushVertex l (openSlots j d)"
  have o: "outPathLonLat ?d0 = outPathLonLat d @ [[]]" "outExtent ?d0 = outExtent d"
    using assms(1) by (simp_all add: geo_frame openSlots_new)
  then have "j < length (outPathLonLat ?d0)"
    using assms(1) by simp
  moreover have "outPathLonLat (openSlots j d) = outPathLonLat d @ [[]]"
    using assms(1) by (rule openSlots_new)
  ultimately show ?thesis
    using appendPointsLonLat_geo [of j ?d0 fm ell path d1] d1
    by (simp add: d' geo_frame flip: assms(1))
qed

lemma appendSegmentsLonLat_geo:
  assumes "length (outPathLonLat d) = j"
    and "appendSegmentsLonLat fm c ell n j ps d = Inr d'"
  shows "outPathLonLat d' = outPathLonLat d @ map (map toLonLat) ps
         \<and> outExtent d'
           = fold (\<lambda>p x. extendExtent x p) (concat (map (map toLonLat) ps)) (outExtent d)"
  using assms
proof (induction ps arbitrary: j d)
  case Nil
  then show ?case by simp
next
  case (Cons p ps)
  from Cons.prems(2) obtain d1 where
    d1: "appendSegmentLonLat fm c ell n j p d = Inr d1"
      "appendSegmentsLonLat fm c ell n (Suc j) ps d1 = Inr d'"
    by (auto split: sum.splits)
  from appendSegmentLonLat_geo [OF Cons.prems(1) d1(1)] have
    g1: "outPathLonLat d1 = outPathLonLat d @ [map toLonLat p]"
      "outExtent d1 = fold (\<lambda>p x. extendExtent x p) (map toLonLat p) (outExtent d)"
    by simp_all
  with Cons.prems(1) have "length (outPathLonLat d1) = Suc j" by simp
  from Cons.IH [OF this d1(2)] show ?case
    by (simp add: g1)
qed

lemma appendLineDataLonLat_geo:
  assumes "appendLineDataLonLat fm ps c [] [] [] ell pc [] pm ext = Inr d"
  shows "outPathLonLat d = map (map toLonLat) ps
         \<and> outExtent d = fold (\<lambda>p x. extendExtent x p) (concat (outPathLonLat d)) (resetExtent ext)"
proof -
  let ?d0 = "\<lparr>outVertices = [], outOrders = [], outIndexes = [0, 0], outPathLonLat = [],
          outPath3v = pc, outPathMerc = pm, outExtent = resetExtent ext, index = 0\<rparr>"
  from assms have "appendSegmentsLonLat fm c ell (length ps) 0 ps ?d0 = Inr d"
    by (simp add: appendLineDataLonLat_def startLine_empty)
  from appendSegmentsLonLat_geo [OF _ this] show ?thesis by simp
qed

lemma storeLineData_geo:
  "pathLonLat (storeLineData d s) = outPathLonLat d" "extent (storeLineData d s) = outExtent d"
  by (simp_all add: storeLineData_def)

lemma createData3v_extent:
  assumes "renderNode s = Some rn" and "ellipsoid rn = Some e"
    and "createData3v fm ps s = Inr s'"
  shows "extent s' = fold (\<lambda>p x. extendExtent x p) (storedPoints s') (resetExtent (extent s))"
proof -
  from assms obtain d where
    d: "appendLineData3v fm ps (closedLine s) [] [] [] (Some e) [] [] [] (extent s) = Inr d"
    and s': "s' = storeLineData d (clearData s)"
    by (auto simp: createData3v_def Let_def clearData_simps split: sum.splits)
  from appendLineData3v_geo [OF d] show ?thesis
    by (simp add: s' storeLineData_geo storedPoints_def)
qed

lemma createDataLonLat_extent:
  assumes "createDataLonLat fm ps s = Inr s'"
  shows "extent s' = fold (\<lambda>p x. extendExtent x p) (storedPoints s') (resetExtent (extent s))"
proof -
  from assms obtain rn where rn: "renderNode s = Some rn"
    by (auto simp: createDataLonLat_def Let_def clearData_simps split: option.splits)
  with assms obtain d where
    d: "appendLineDataLonLat fm ps (closedLine s) [] [] [] (ellipsoid rn) [] [] [] (extent s) = Inr d"
    and s': "s' = storeLineData d (clearData s)"
    by (auto simp: createDataLonLat_def Let_def clearData_simps split: sum.splits)
  from appendLineDataLonLat_geo [OF d] show ?thesis
    by (simp add: s' storeLineData_geo storedPoints_def)
qed

lemma updateLonLat_extent:
  assumes "updateLonLat fm e c i seg s = Inr s1"
  shows "extent s1 = fold (\<lambda>p x. extendExtent x p) (storedPoints s1) (resetExtent (extent s))"
  using assms
  by (auto simp: updateLonLat_def Let_def scanExtent_fold storedPoints_def
        split: option.splits if_splits)

lemma setPoint3v_extent:
  assumes "renderNode s = Some rn" and "ellipsoid rn = Some e"
    and "setPoint3v fm c i seg False s = Inr s'"
  shows "extent s' = fold (\<lambda>p x. extendExtent x p) (storedPoints s') (resetExtent (extent s))"
proof -
  from assms obtain s1 where
    s1: "updateLonLat fm e c i seg s = Inr s1"
    and "extent s' = extent s1" "pathLonLat s' = pathLonLat s1"
    by (auto simp: setPoint3v_def Let_def split: sum.splits)
  with updateLonLat_extent [OF s1] show ?thesis
    by (simp add: storedPoints_def)
qed

lemma Min_insert_bound:
  fixes A :: "real set"
  assumes "finite A" "A \<noteq> {}" "\<forall>a \<in> A. a \<le> b"
  shows "Min (insert b A) = Min A"
proof -
  from assms have "Min A \<le> b" by (meson Min_in)
  moreover from assms have "Min (insert b A) = min b (Min A)" by simp
  ultimately show ?thesis by (simp add: min_absorb2)
qed

lemma Max_insert_bound:
  fixes A :: "real set"
  assumes "finite A" "A \<noteq> {}" "\<forall>a \<in> A. b \<le> a"
  shows "Max (insert b A) = Max A"
proof -
  from assms have "b \<le> Max A" by (meson Max_in)
  moreover from assms have "Max (insert b A) = max b (Max A)" by simp
  ultimately show ?thesis by (simp add: max_absorb2)
qed

subsection \<open>Moving one point\<close>

lemma js_get_js_set: "js_get (js_set xs k a) i = (if i = k then Some a else js_get xs i)"
  by (auto simp: js_get_def js_set_def nth_append nth_list_update)

lemma js_get_js_write:
  "js_get (js_write xs k as) i
     = (if k \<le> i \<and> i < k + length as then Some (as ! (i - k)) else js_get xs i)"
proof (induction as arbitrary: xs k)
  case Nil
  then show ?case by auto
next
  case (Cons a as)
  show ?case
  proof (cases "i = k")
    case True
    with Cons.IH [of "js_set xs k a" "Suc k"] show ?thesis
      by (simp add: js_get_js_set)
  next
    case False
    with Cons.IH [of "js_set xs k a" "Suc k"] show ?thesis
      by (auto simp: js_get_js_set nth_Cons' Suc_diff_Suc)
  qed
qed

lemma blockAt_js_write_same:
  "length as = 12 \<Longrightarrow> blockAt (js_write v k as) k = map Some as"
  by (auto simp: blockAt_def js_get_js_write list_eq_iff_nth_eq)

lemma blockAt_js_write_other:
  "k' + 12 \<le> k \<or> k + length as \<le> k' \<Longrightarrow> blockAt (js_write v k as) k' = blockAt v k'"
  by (auto simp: blockAt_def js_get_js_write)

lemma segmentOffset_Inr:
  "segmentOffset ps k = Inr kk \<Longrightarrow> k \<le> length ps \<and> kk = segmentStart ps k"
proof (induction k arbitrary: kk)
  case 0
  then show ?case by (simp add: segmentStart_def)
next
  case (Suc k)
  from Suc.prems obtain kk0 p where
    a: "segmentOffset ps k = Inr kk0" "js_nth ps (int k) = Some p" "kk = kk0 + (length p * 12 + 24)"
    by (auto split: sum.splits option.splits)
  from a(2) have k: "k < length ps" "p = ps ! k"
    by (auto simp: js_nth_int split: if_splits)
  from Suc.IH [OF a(1)] a(3) k show ?case
    by (simp add: segmentStart_def take_Suc_conv_app_nth)
qed

lemma segmentOffset_ok:
  "k \<le> length ps \<Longrightarrow> segmentOffset ps k = Inr (segmentStart ps k)"
proof (induction k)
  case 0
  then show ?case by (simp add: segmentStart_def)
next
  case (Suc k)
  then show ?case
    by (simp add: segmentStart_def take_Suc_conv_app_nth js_nth_int)
qed

lemma vec3_assign: "(p :: vec3)\<lparr>vx := vx c, vy := vy c, vz := vz c\<rparr> = c"
  by (cases p, cases c) simp

lemma movePoint_Inr:
  "movePoint paths seg i c = Inr path \<Longrightarrow>
     seg < length paths \<and> i < length (paths ! seg) \<and> path = (paths ! seg)[i := c]"
  by (auto simp: movePoint_def js_nth_int vec3_assign split: option.splits if_splits)

lemma movePoint_ok:
  "seg < length paths \<Longrightarrow> i < length (paths ! seg) \<Longrightarrow>
     movePoint paths seg i c = Inr ((paths ! seg)[i := c])"
  by (simp add: movePoint_def js_nth_int vec3_assign)

lemma js_nth_map: "js_nth (map f xs) k = map_option f (js_nth xs k)"
  by (auto simp: js_nth_def)

lemma storedFirstCap_build: "storedFirstCap c path = firstCap3v c (map Vector3 path)"
  by (auto simp: storedFirstCap_def firstCap3v_def js_nth_map split: option.splits)

lemma storedLastCap_build: "storedLastCap c path = lastCap3v c (map Vector3 path)"
  by (auto simp: storedLastCap_def lastCap3v_def js_nth_map split: option.splits)

lemma updateLonLat_frame:
  assumes "updateLonLat fm e c i seg s = Inr s1"
  shows "path3v s1 = path3v s" "vertices s1 = vertices s" "orders s1 = orders s"
    "indexes s1 = indexes s" "changedBuffers s1 = changedBuffers s" "glCalls s1 = glCalls s"
    "verticesBuffer s1 = verticesBuffer s" "ordersBuffer s1 = ordersBuffer s"
    "indexesBuffer s1 = indexesBuffer s" "closedLine s1 = closedLine s"
    "renderNode s1 = renderNode s"
  using assms
  by (auto simp: updateLonLat_def Let_def split: option.splits if_splits)

lemma writeFirstCap_Inr:
  assumes "writeFirstCap c path i kk v = Inr v1"
  shows "if i = 0 \<or> i = 1
         then \<exists>cap. firstCap3v c (map Vector3 path) = Inr cap \<and> v1 = js_write v kk (coords4 cap)
         else v1 = v"
  using assms
  by (auto simp: writeFirstCap_def storedFirstCap_build split: if_splits sum.splits)

lemma writeLastCap_Inr:
  assumes "writeLastCap c path i kk v = Inr v3"
  shows "if i + 1 = length path \<or> i + 2 = length path
         then \<exists>cap. lastCap3v c (map Vector3 path) = Inr cap
                \<and> v3 = js_write v (kk + length path * 12 + 12) (coords4 cap)
         else v3 = v"
proof -
  have "(int i = int (length path) - 1 \<or> int i = int (length path) - 2)
          = (i + 1 = length path \<or> i + 2 = length path)"
    by auto
  with assms show ?thesis
    by (auto simp: writeLastCap_def storedLastCap_build split: if_splits sum.splits)
qed

lemma setPoint3v_stages:
  assumes "renderNode s = Some rn" and "setPoint3v fm c i seg force s = Inr s'"
  obtains path v1 v3 s1 where
    "seg < length (path3v s)" "i < length (path3v s ! seg)"
    "path = (path3v s ! seg)[i := c]"
    "writeFirstCap (closedLine s) path i (segmentStart (path3v s) seg) (vertices s) = Inr v1"
    "writeLastCap (closedLine s) path i (segmentStart (path3v s) seg)
       (js_write v1 (segmentStart (path3v s) seg + i * 12 + 12) (coords4 c)) = Inr v3"
    "s1 = s \<or> (\<exists>e. updateLonLat fm e c i seg s = Inr s1)"
    "s' = s1\<lparr>path3v := (path3v s)[seg := path], vertices := v3,
              changedBuffers := (changedBuffers s)[VERTICES_BUFFER := True]\<rparr>"
proof -
  from assms obtain kk path v1 v3 s1 where
    st: "segmentOffset (path3v s) seg = Inr kk"
      "movePoint (path3v s) seg i c = Inr path"
      "writeFirstCap (closedLine s) path i kk (vertices s) = Inr v1"
      "(if \<not> force then (case ellipsoid rn of Some e \<Rightarrow> updateLonLat fm e c i seg s | None \<Rightarrow> Inr s)
        else Inr s) = Inr s1"
      "writeLastCap (closedLine s) path i kk (js_write v1 (kk + i * 12 + 12) (coords4 c)) = Inr v3"
      "s' = s1\<lparr>path3v := (path3v s)[seg := path], vertices := v3,
              changedBuffers := (changedBuffers s)[VERTICES_BUFFER := True]\<rparr>"
    by (auto simp: setPoint3v_def Let_def split: sum.splits)
  from segmentOffset_Inr [OF st(1)] have kk: "kk = segmentStart (path3v s) seg" by simp
  from movePoint_Inr [OF st(2)] have mv: "seg < length (path3v s)" "i < length (path3v s ! seg)"
    "path = (path3v s ! seg)[i := c]"
    by simp_all
  from st(4) have "s1 = s \<or> (\<exists>e. updateLonLat fm e c i seg s = Inr s1)"
    by (auto split: if_splits option.splits)
  with st(3,5,6) kk mv that show thesis by blast
qed

lemma setPoint3v_effect:
  assumes rn: "renderNode s = Some rn" and len: "length (changedBuffers s) = 2"
    and run: "setPoint3v fm c i seg force s = Inr s'"
  shows "seg < length (path3v s) \<and> i < length (path3v s ! seg)
    \<and> path3v s' = (path3v s)[seg := (path3v s ! seg)[i := c]]
    \<and> blockAt (vertices s') (segmentStart (path3v s) seg + i * 12 + 12) = map Some (coords4 c)
    \<and> (if i = 0 \<or> i = 1
        then \<exists>cap. firstCap3v (closedLine s) (map Vector3 (path3v s' ! seg)) = Inr cap
               \<and> blockAt (vertices s') (segmentStart (path3v s) seg) = map Some (coords4 cap)
        else blockAt (vertices s') (segmentStart (path3v s) seg)
               = blockAt (vertices s) (segmentStart (path3v s) seg))
    \<and> (if i + 1 = length (path3v s ! seg) \<or> i + 2 = length (path3v s ! seg)
        then \<exists>cap. lastCap3v (closedLine s) (map Vector3 (path3v s' ! seg)) = Inr cap
               \<and> blockAt (vertices s')
                    (segmentStart (path3v s) seg + length (path3v s ! seg) * 12 + 12)
                   = map Some (coords4 cap)
        else blockAt (vertices s') (segmentStart (path3v s) seg + length (path3v s ! seg) * 12 + 12)
               = blockAt (vertices s)
                   (segmentStart (path3v s) seg + length (path3v s ! seg) * 12 + 12))
    \<and> (\<forall>k. k \<notin> {segmentStart (path3v s) seg ..< segmentStart (path3v s) seg + 12}
              \<union> {segmentStart (path3v s) seg + i * 12 + 12
                    ..< segmentStart (path3v s) seg + i * 12 + 24}
              \<union> {segmentStart (path3v s) seg + length (path3v s ! seg) * 12 + 12
                    ..< segmentStart (path3v s) seg + length (path3v s ! seg) * 12 + 24}
           \<longrightarrow> js_get (vertices s') k = js_get (vertices s) k)
    \<and> changedBuffers s' = [True, changedBuffers s ! INDEX_BUFFER]
    \<and> indexes s' = indexes s \<and> orders s' = orders s
    \<and> verticesBuffer s' = verticesBuffer s \<and> ordersBuffer s' = ordersBuffer s
    \<and> indexesBuffer s' = indexesBuffer s \<and> glCalls s' = glCalls s"
proof -
  let ?kk = "segmentStart (path3v s) seg"
  let ?n = "length (path3v s ! seg)"
  from setPoint3v_stages [OF rn run] obtain path v1 v3 s1 where
    seg: "seg < length (path3v s)" and i: "i < ?n"
    and path: "path = (path3v s ! seg)[i := c]"
    and w1: "writeFirstCap (closedLine s) path i ?kk (vertices s) = Inr v1"
    and w3: "writeLastCap (closedLine s) path i ?kk (js_write v1 (?kk + i * 12 + 12) (coords4 c)) = Inr v3"
    and s1: "s1 = s \<or> (\<exists>e. updateLonLat fm e c i seg s = Inr s1)"
    and s': "s' = s1\<lparr>path3v := (path3v s)[seg := path], vertices := v3,
              changedBuffers := (changedBuffers s)[VERTICES_BUFFER := True]\<rparr>"
    by blast
  let ?v2 = "js_write v1 (?kk + i * 12 + 12) (coords4 c)"
  have n: "length path = ?n" by (simp add: path)
  have p': "path3v s' ! seg = path" using seg by (simp add: s')
  have frame1: "indexes s1 = indexes s" "orders s1 = orders s"
    "verticesBuffer s1 = verticesBuffer s" "ordersBuffer s1 = ordersBuffer s"
    "indexesBuffer s1 = indexesBuffer s" "glCalls s1 = glCalls s"
    using s1 updateLonLat_frame by auto
  from len obtain a b where cb: "changedBuffers s = [a, b]"
    by (cases "changedBuffers s"; cases "tl (changedBuffers s)") auto
  note f1 = writeFirstCap_Inr [OF w1]
  note f3 = writeLastCap_Inr [OF w3, unfolded n]
  have l12: "\<And>p. length (coords4 p) = 12" by (simp add: coords4_def)
  have point: "blockAt v3 (?kk + i * 12 + 12) = map Some (coords4 c)"
  proof -
    have "blockAt v3 (?kk + i * 12 + 12) = blockAt ?v2 (?kk + i * 12 + 12)"
      using f3 i by (auto simp: blockAt_js_write_other l12 split: if_splits)
    then show ?thesis by (simp add: blockAt_js_write_same l12)
  qed
  have first_keep: "blockAt v3 ?kk = blockAt v1 ?kk"
  proof -
    have "blockAt v3 ?kk = blockAt ?v2 ?kk"
      using f3 by (auto simp: blockAt_js_write_other l12 split: if_splits)
    then show ?thesis by (simp add: blockAt_js_write_other l12)
  qed
  have first: "if i = 0 \<or> i = 1
        then \<exists>cap. firstCap3v (closedLine s) (map Vector3 path) = Inr cap
               \<and> blockAt v3 ?kk = map Some (coords4 cap)
        else blockAt v3 ?kk = blockAt (vertices s) ?kk"
    using f1 by (auto simp: first_keep blockAt_js_write_same l12 split: if_splits)
  have last_keep: "blockAt ?v2 (?kk + ?n * 12 + 12) = blockAt (vertices s) (?kk + ?n * 12 + 12)"
  proof -
    have "blockAt ?v2 (?kk + ?n * 12 + 12) = blockAt v1 (?kk + ?n * 12 + 12)"
      using i by (simp add: blockAt_js_write_other l12)
    also have "\<dots> = blockAt (vertices s) (?kk + ?n * 12 + 12)"
      using f1 by (auto simp: blockAt_js_write_other l12 split: if_splits)
    finally show ?thesis .
  qed
  have last: "if i + 1 = ?n \<or> i + 2 = ?n
        then \<exists>cap. lastCap3v (closedLine s) (map Vector3 path) = Inr cap
               \<and> blockAt v3 (?kk + ?n * 12 + 12) = map Some (coords4 cap)
        else blockAt v3 (?kk + ?n * 12 + 12) = blockAt (vertices s) (?kk + ?n * 12 + 12)"
    using f3 by (auto simp: last_keep blockAt_js_write_same l12 split: if_splits)
  have rest: "js_get v3 k = js_get (vertices s) k"
    if "k \<notin> {?kk ..< ?kk + 12} \<union> {?kk + i * 12 + 12 ..< ?kk + i * 12 + 24}
              \<union> {?kk + ?n * 12 + 12 ..< ?kk + ?n * 12 + 24}" for k
  proof -
    have "js_get v3 k = js_get ?v2 k"
      using f3 that by (auto simp: js_get_js_write l12 split: if_splits)
    also have "\<dots> = js_get v1 k"
      using that by (auto simp: js_get_js_write l12)
    also have "\<dots> = js_get (vertices s) k"
      using f1 that by (auto simp: js_get_js_write l12 split: if_splits)
    finally show ?thesis .
  qed
  have vs: "vertices s' = v3" by (simp add: s')
  have c1: "path3v s' = (path3v s)[seg := (path3v s ! seg)[i := c]]"
    by (simp add: s' path)
  have c2: "blockAt (vertices s') (?kk + i * 12 + 12) = map Some (coords4 c)"
    using point by (simp only: vs)
  have c3: "if i = 0 \<or> i = 1
        then \<exists>cap. firstCap3v (closedLine s) (map Vector3 (path3v s' ! seg)) = Inr cap
               \<and> blockAt (vertices s') ?kk = map Some (coords4 cap)
        else blockAt (vertices s') ?kk = blockAt (vertices s) ?kk"
    using first by (simp only: vs p')
  have c4: "if i + 1 = ?n \<or> i + 2 = ?n
        then \<exists>cap. lastCap3v (closedLine s) (map Vector3 (path3v s' ! seg)) = Inr cap
               \<and> blockAt (vertices s') (?kk + ?n * 12 + 12) = map Some (coords4 cap)
        else blockAt (vertices s') (?kk + ?n * 12 + 12)
               = blockAt (vertices s) (?kk + ?n * 12 + 12)"
    using last by (simp only: vs p')
  have c5: "\<forall>k. k \<notin> {?kk ..< ?kk + 12} \<union> {?kk + i * 12 + 12 ..< ?kk + i * 12 + 24}
              \<union> {?kk + ?n * 12 + 12 ..< ?kk + ?n * 12 + 24}
           \<longrightarrow> js_get (vertices s') k = js_get (vertices s) k"
    using rest by (simp only: vs) blast
  have c6: "changedBuffers s' = [True, changedBuffers s ! INDEX_BUFFER]"
    by (simp add: s' cb VERTICES_BUFFER_def INDEX_BUFFER_def)
  have c7: "indexes s' = indexes s" "orders s' = orders s"
    "verticesBuffer s' = verticesBuffer s" "ordersBuffer s' = ordersBuffer s"
    "indexesBuffer s' = indexesBuffer s" "glCalls s' = glCalls s"
    using frame1 by (simp_all add: s')
  show ?thesis
    by (intro conjI) (fact seg i c1 c2 c3 c4 c5 c6 c7)+
qed

lemma writeFirstCap_ok:
  assumes "segmentOK c (length path)"
  shows "\<exists>v1. writeFirstCap c path i kk v = Inr v1"
  using firstCap3v_ok [of c "map Vector3 path"] assms
  by (simp add: writeFirstCap_def storedFirstCap_build)

lemma writeLastCap_ok:
  assumes "segmentOK c (length path)"
  shows "\<exists>v3. writeLastCap c path i kk v = Inr v3"
  using lastCap3v_ok [of c "map Vector3 path"] assms
  by (simp add: writeLastCap_def storedLastCap_build)

lemma updateLonLat_ok:
  assumes "seg < length (pathLonLat s)" "seg < length (pathLonLatMerc s)"
    "i \<le> length (pathLonLat s ! seg)"
  shows "\<exists>s1. updateLonLat fm e c i seg s = Inr s1"
  using assms by (simp add: updateLonLat_def js_nth_int Let_def)

lemma setPoint3v_succeeds:
  assumes rn: "renderNode s = Some rn"
    and seg: "seg < length (path3v s)" and i: "i < length (path3v s ! seg)"
    and ok: "closedLine s \<or> 2 \<le> length (path3v s ! seg)"
    and geo: "force \<or> ellipsoid rn = None
              \<or> (seg < length (pathLonLat s) \<and> seg < length (pathLonLatMerc s)
                  \<and> i \<le> length (pathLonLat s ! seg))"
  shows "\<exists>s'. setPoint3v fm c i seg force s = Inr s'"
proof -
  let ?path = "(path3v s ! seg)[i := c]"
  let ?kk = "segmentStart (path3v s) seg"
  from i ok have sok: "segmentOK (closedLine s) (length ?path)"
    by (auto simp: segmentOK_def)
  from writeFirstCap_ok [OF sok] obtain v1 where
    v1: "writeFirstCap (closedLine s) ?path i ?kk (vertices s) = Inr v1" by blast
  from writeLastCap_ok [OF sok] obtain v3 where
    v3: "writeLastCap (closedLine s) ?path i ?kk (js_write v1 (?kk + i * 12 + 12) (coords4 c)) = Inr v3"
    by blast
  have "\<exists>s1. (if \<not> force then (case ellipsoid rn of Some e \<Rightarrow> updateLonLat fm e c i seg s | None \<Rightarrow> Inr s)
        else Inr s) = Inr s1"
    using geo updateLonLat_ok [of seg s i fm _ c] by (auto split: option.splits)
  then obtain s1 where
    s1: "(if \<not> force then (case ellipsoid rn of Some e \<Rightarrow> updateLonLat fm e c i seg s | None \<Rightarrow> Inr s)
        else Inr s) = Inr s1"
    by blast
  from seg have off: "segmentOffset (path3v s) seg = Inr ?kk"
    by (simp add: segmentOffset_ok)
  show ?thesis
    by (simp add: setPoint3v_def rn off movePoint_ok [OF seg i] v1 s1 v3 Let_def)
qed

text \<open>
  What \<^verbatim>\<open>setPoint3v\<close> does on an attached polyline whose stored Cartesian path holds
  the point: the point's block, at the segment's offset plus \<open>index * 12 + 12\<close>, becomes
  the new position four times over; the block in front of the segment is rewritten, by
  the builder's rule, exactly when the index is 0 or 1, and the block after it exactly
  when the index is the last or the last but one; every other vertex number, the index
  and order arrays, the index-buffer flag and the buffers stay as they are, and the
  vertex-buffer flag is set.
\<close>

theorem set_point_patch:
  assumes "renderNode s = Some rn" and "length (changedBuffers s) = 2"
    and "seg < length (path3v s)" and "i < length (path3v s ! seg)"
    and "closedLine s \<or> 2 \<le> length (path3v s ! seg)"
    and "force \<or> ellipsoid rn = None
         \<or> (seg < length (pathLonLat s) \<and> seg < length (pathLonLatMerc s)
             \<and> i \<le> length (pathLonLat s ! seg))"
  shows "\<exists>s'. setPoint3v fm c i seg force s = Inr s'
    \<and> path3v s' = (path3v s)[seg := (path3v s ! seg)[i := c]]
    \<and> blockAt (vertices s') (segmentStart (path3v s) seg + i * 12 + 12) = map Some (coords4 c)
    \<and> (if i = 0 \<or> i = 1
        then \<exists>cap. firstCap3v (closedLine s) (map Vector3 (path3v s' ! seg)) = Inr cap
               \<and> blockAt (vertices s') (segmentStart (path3v s) seg) = map Some (coords4 cap)
        else blockAt (vertices s') (segmentStart (path3v s) seg)
               = blockAt (vertices s) (segmentStart (path3v s) seg))
    \<and> (if i + 1 = length (path3v s ! seg) \<or> i + 2 = length (path3v s ! seg)
        then \<exists>cap. lastCap3v (closedLine s) (map Vector3 (path3v s' ! seg)) = Inr cap
               \<and> blockAt (vertices s')
                    (segmentStart (path3v s) seg + length (path3v s ! seg) * 12 + 12)
                   = map Some (coords4 cap)
        else blockAt (vertices s') (segmentStart (path3v s) seg + length (path3v s ! seg) * 12 + 12)
               = blockAt (vertices s)
                   (segmentStart (path3v s) seg + length (path3v s ! seg) * 12 + 12))
    \<and> (\<forall>k. k \<notin> {segmentStart (path3v s) seg ..< segmentStart (path3v s) seg + 12}
              \<union> {segmentStart (path3v s) seg + i * 12 + 12
                    ..< segmentStart (path3v s) seg + i * 12 + 24}
              \<union> {segmentStart (path3v s) seg + length (path3v s ! seg) * 12 + 12
                    ..< segmentStart (path3v s) seg + length (path3v s ! seg) * 12 + 24}
           \<longrightarrow> js_get (vertices s') k = js_get (vertices s) k)
    \<and> changedBuffers s' = [True, changedBuffers s ! INDEX_BUFFER]
    \<and> indexes s' = indexes s \<and> orders s' = orders s
    \<and> verticesBuffer s' = verticesBuffer s \<and> ordersBuffer s' = ordersBuffer s
    \<and> indexesBuffer s' = indexesBuffer s \<and> glCalls s' = glCalls s"
proof -
  from setPoint3v_succeeds [OF assms(1,3,4,5,6)] obtain s' where
    run: "setPoint3v fm c i seg force s = Inr s'" by blast
  from setPoint3v_effect [OF assms(1,2) run] run show ?thesis by blast
qed

theorem set_point_patch_example:
  "\<exists>s s'. exampleDrawn = Inr s
     \<and> renderNode s \<noteq> None \<and> length (changedBuffers s) = 2
     \<and> 0 < length (path3v s) \<and> 1 < length (path3v s ! 0) \<and> 2 \<le> length (path3v s ! 0)
     \<and> 0 < length (pathLonLat s) \<and> 0 < length (pathLonLatMerc s)
     \<and> 1 \<le> length (pathLonLat s ! 0)
     \<and> setPoint3v id \<lparr>vx = 5, vy = 5, vz = 5\<rparr> 1 0 False s = Inr s'
     \<and> segmentStart (path3v s) 0 + 1 * 12 + 12 = 24
     \<and> blockAt (vertices s') 24 = map Some (coords4 \<lparr>vx = 5, vy = 5, vz = 5\<rparr>)
     \<and> blockAt (vertices s') 0 = map Some (coords4 \<lparr>vx = - 5, vy = - 5, vz = - 5\<rparr>)
     \<and> blockAt (vertices s') 48 = map Some (coords4 \<lparr>vx = - 3, vy = - 3, vz = - 5\<rparr>)
     \<and> blockAt (vertices s') 12 = blockAt (vertices s) 12
     \<and> blockAt (vertices s') 36 = blockAt (vertices s) 36
     \<and> changedBuffers s = [False, False] \<and> changedBuffers s' = [True, False]
     \<and> indexes s' = indexes s \<and> orders s' = orders s
     \<and> indexesBuffer s' = indexesBuffer s \<and> glCalls s' = glCalls s"
proof -
  let ?c = "\<lparr>vx = 5, vy = 5, vz = 5\<rparr>"
  have "\<not> isl exampleDrawn" by code_simp
  then have "exampleDrawn = Inr (projr exampleDrawn)" by simp
  then obtain s where s: "exampleDrawn = Inr s" ..
  have f0: "map_sum id (\<lambda>s. (path3v s, pathLonLat s, map length (pathLonLatMerc s), closedLine s,
            changedBuffers s, renderNode s \<noteq> None)) exampleDrawn
          = Inr ([[\<lparr>vx = 0, vy = 0, vz = 0\<rparr>, \<lparr>vx = 1, vy = 0, vz = 0\<rparr>, \<lparr>vx = 1, vy = 1, vz = 0\<rparr>]],
                 [[\<lparr>lon = 0, lat = 0, height = 0\<rparr>, \<lparr>lon = 1, lat = 0, height = 0\<rparr>,
                   \<lparr>lon = 1, lat = 1, height = 0\<rparr>]],
                 [3], False, [False, False], True)"
    by code_simp
  from f0 [unfolded s] have f: "path3v s = [[\<lparr>vx = 0, vy = 0, vz = 0\<rparr>, \<lparr>vx = 1, vy = 0, vz = 0\<rparr>, \<lparr>vx = 1, vy = 1, vz = 0\<rparr>]]"
    "pathLonLat s = [[\<lparr>lon = 0, lat = 0, height = 0\<rparr>, \<lparr>lon = 1, lat = 0, height = 0\<rparr>,
                   \<lparr>lon = 1, lat = 1, height = 0\<rparr>]]"
    "map length (pathLonLatMerc s) = [3]" "\<not> closedLine s" "changedBuffers s = [False, False]"
    "renderNode s \<noteq> None"
    by simp_all
  from f(3) have m: "0 < length (pathLonLatMerc s)" by (cases "pathLonLatMerc s") auto
  from f(6) obtain rn where rn: "renderNode s = Some rn" by auto
  have h: "length (changedBuffers s) = 2" "0 < length (path3v s)" "1 < length (path3v s ! 0)"
    "closedLine s \<or> 2 \<le> length (path3v s ! 0)"
    "False \<or> ellipsoid rn = None
         \<or> (0 < length (pathLonLat s) \<and> 0 < length (pathLonLatMerc s)
             \<and> 1 \<le> length (pathLonLat s ! 0))"
    using f m by simp_all
  from set_point_patch [OF rn h, of id ?c] obtain s' where
    r: "setPoint3v id ?c 1 0 False s = Inr s'"
      "path3v s' = (path3v s)[0 := (path3v s ! 0)[1 := ?c]]"
      "blockAt (vertices s') (segmentStart (path3v s) 0 + 1 * 12 + 12) = map Some (coords4 ?c)"
      "if (1 :: nat) = 0 \<or> (1 :: nat) = 1
        then \<exists>cap. firstCap3v (closedLine s) (map Vector3 (path3v s' ! 0)) = Inr cap
               \<and> blockAt (vertices s') (segmentStart (path3v s) 0) = map Some (coords4 cap)
        else blockAt (vertices s') (segmentStart (path3v s) 0)
               = blockAt (vertices s) (segmentStart (path3v s) 0)"
      "if 1 + 1 = length (path3v s ! 0) \<or> 1 + 2 = length (path3v s ! 0)
        then \<exists>cap. lastCap3v (closedLine s) (map Vector3 (path3v s' ! 0)) = Inr cap
               \<and> blockAt (vertices s')
                    (segmentStart (path3v s) 0 + length (path3v s ! 0) * 12 + 12)
                   = map Some (coords4 cap)
        else blockAt (vertices s') (segmentStart (path3v s) 0 + length (path3v s ! 0) * 12 + 12)
               = blockAt (vertices s)
                   (segmentStart (path3v s) 0 + length (path3v s ! 0) * 12 + 12)"
      "\<forall>k. k \<notin> {segmentStart (path3v s) 0 ..< segmentStart (path3v s) 0 + 12}
              \<union> {segmentStart (path3v s) 0 + 1 * 12 + 12
                    ..< segmentStart (path3v s) 0 + 1 * 12 + 24}
              \<union> {segmentStart (path3v s) 0 + length (path3v s ! 0) * 12 + 12
                    ..< segmentStart (path3v s) 0 + length (path3v s ! 0) * 12 + 24}
           \<longrightarrow> js_get (vertices s') k = js_get (vertices s) k"
      "changedBuffers s' = [True, changedBuffers s ! INDEX_BUFFER]"
      "indexes s' = indexes s" "orders s' = orders s"
      "indexesBuffer s' = indexesBuffer s" "glCalls s' = glCalls s"
    by blast
  have st: "\<And>ps. segmentStart ps 0 = 0" by (simp add: segmentStart_def)
  have b24: "blockAt (vertices s') 24 = map Some (coords4 ?c)"
    using r(3) by (simp add: st)
  have b0: "blockAt (vertices s') 0 = map Some (coords4 \<lparr>vx = - 5, vy = - 5, vz = - 5\<rparr>)"
    using r(4) by (simp add: st r(2) f firstCap3v_def js_nth_def mirror_def)
  have b48: "blockAt (vertices s') 48 = map Some (coords4 \<lparr>vx = - 3, vy = - 3, vz = - 5\<rparr>)"
    using r(5) by (simp add: st r(2) f lastCap3v_def js_nth_def mirror_def)
  have fr: "\<And>k. k \<notin> {0 ..< 12} \<union> {24 ..< 36} \<union> {48 ..< 60}
              \<Longrightarrow> js_get (vertices s') k = js_get (vertices s) k"
    using r(6) by (simp add: st f)
  have b12: "blockAt (vertices s') 12 = blockAt (vertices s) 12"
    by (simp add: blockAt_def fr)
  have b36: "blockAt (vertices s') 36 = blockAt (vertices s) 36"
    by (simp add: blockAt_def fr)
  have cb: "changedBuffers s' = [True, False]"
    using r(7) by (simp add: f INDEX_BUFFER_def)
  have hw: "0 < length (path3v s)" "1 < length (path3v s ! 0)" "2 \<le> length (path3v s ! 0)"
    "0 < length (pathLonLat s)" "1 \<le> length (pathLonLat s ! 0)"
    "segmentStart (path3v s) 0 + 1 * 12 + 12 = 24"
    using f by (simp_all add: st)
  from s f(5,6) h(1) hw m r(1) b24 b0 b48 b12 b36 cb r(8-11) show ?thesis by blast
qed

section \<open>The claims\<close>

subsection \<open>C1: the mesh of one open segment\<close>

text \<open>
  Claim C1. For an open segment of \<open>n \<ge> 2\<close> points, \<^verbatim>\<open>appendLineData3v\<close> started on empty
  arrays returns a vertex array of \<open>12 * (n + 2)\<close> numbers and an order array that is the
  cycle \<open>1, -1, 2, -2\<close> repeated \<open>n + 2\<close> times. The first 12 vertex numbers are the
  position \<open>2 * P0 - P1\<close> four times over, the last 12 are \<open>2 * P(n-1) - P(n-2)\<close> four
  times over. For the path \<open>(0,0,0), (1,0,0), (1,1,0)\<close> these are 60 numbers, the cap
  \<open>(-1,0,0)\<close> in front and the cap \<open>(1,2,0)\<close> at the end (the witness).
\<close>

theorem open_segment_mesh:
  assumes "2 \<le> length seg"
  shows "\<exists>d. appendLineData3v fm [seg] False [] [] [] ell [] [] [] ext = Inr d
           \<and> length (outVertices d) = 12 * (length seg + 2)
           \<and> outOrders d = concat (replicate (length seg + 2) [1, - 1, 2, - 2])
           \<and> take 12 (outVertices d)
               = map Some (concat (replicate 4
                   [2 * vx (toVec3 (seg ! 0)) - vx (toVec3 (seg ! 1)),
                    2 * vy (toVec3 (seg ! 0)) - vy (toVec3 (seg ! 1)),
                    2 * vz (toVec3 (seg ! 0)) - vz (toVec3 (seg ! 1))]))
           \<and> drop (12 * (length seg + 1)) (outVertices d)
               = map Some (concat (replicate 4
                   [2 * vx (toVec3 (seg ! (length seg - 1))) - vx (toVec3 (seg ! (length seg - 2))),
                    2 * vy (toVec3 (seg ! (length seg - 1))) - vy (toVec3 (seg ! (length seg - 2))),
                    2 * vz (toVec3 (seg ! (length seg - 1))) - vz (toVec3 (seg ! (length seg - 2)))]))"
proof -
  let ?S = "map toVec3 seg"
  from assms have ok: "\<forall>p \<in> set [seg]. segmentOK False (length p)"
    by (simp add: segmentOK_open)
  from appendLineData3v_ok [OF ok, of fm ell "[]" "[]" "[]" ext] obtain d where
    d: "appendLineData3v fm [seg] False [] [] [] ell [] [] [] ext = Inr d"
       "outVertices d = map Some (segmentCoords False ?S)"
       "outOrders d = concat (replicate (length seg + 2) orderCycle)"
    by auto
  have v: "outVertices d = map Some ([] @ segmentCoords False ?S @ [])"
    using d(2) by simp
  have "take 12 (drop 0 (outVertices d)) = map Some (coords4 (capBefore False ?S))"
    unfolding v by (rule first_block) simp
  then have t: "take 12 (outVertices d) = map Some (coords4 (mirror (?S ! 0) (?S ! 1)))"
    by (simp add: capBefore_open)
  have "take 12 (drop (0 + 12 * length ?S + 12) (outVertices d))
          = map Some (coords4 (capAfter False ?S))"
    unfolding v by (rule last_block) simp
  moreover have "0 + 12 * length ?S + 12 = 12 * (length seg + 1)"
    by simp
  ultimately have "take 12 (drop (12 * (length seg + 1)) (outVertices d))
          = map Some (coords4 (capAfter False ?S))"
    by (simp only:)
  moreover have "length (drop (12 * (length seg + 1)) (outVertices d)) = 12"
    using d(2) by (simp add: length_segmentCoords)
  ultimately have l: "drop (12 * (length seg + 1)) (outVertices d)
       = map Some (coords4 (mirror (?S ! (length seg - 1)) (?S ! (length seg - 2))))"
    by (simp add: capAfter_open)
  from assms have "0 < length seg" "1 < length seg" "length seg - 1 < length seg"
    "length seg - 2 < length seg"
    by linarith+
  then have nth: "?S ! 0 = toVec3 (seg ! 0)" "?S ! 1 = toVec3 (seg ! 1)"
    "?S ! (length seg - 1) = toVec3 (seg ! (length seg - 1))"
    "?S ! (length seg - 2) = toVec3 (seg ! (length seg - 2))"
    by (simp_all add: nth_map)
  have t': "take 12 (outVertices d)
               = map Some (concat (replicate 4
                   [2 * vx (toVec3 (seg ! 0)) - vx (toVec3 (seg ! 1)),
                    2 * vy (toVec3 (seg ! 0)) - vy (toVec3 (seg ! 1)),
                    2 * vz (toVec3 (seg ! 0)) - vz (toVec3 (seg ! 1))]))"
    using t by (simp only: nth coords4_mirror)
  have l': "drop (12 * (length seg + 1)) (outVertices d)
               = map Some (concat (replicate 4
                   [2 * vx (toVec3 (seg ! (length seg - 1))) - vx (toVec3 (seg ! (length seg - 2))),
                    2 * vy (toVec3 (seg ! (length seg - 1))) - vy (toVec3 (seg ! (length seg - 2))),
                    2 * vz (toVec3 (seg ! (length seg - 1))) - vz (toVec3 (seg ! (length seg - 2)))]))"
    using l by (simp only: nth coords4_mirror)
  have len: "length (outVertices d) = 12 * (length seg + 2)"
    using d(2) by (simp add: length_segmentCoords)
  have ord: "outOrders d = concat (replicate (length seg + 2) [1, - 1, 2, - 2])"
    using d(3) by (simp only: orderCycle_def)
  from d(1) len ord t' l' show ?thesis by blast
qed

theorem open_segment_mesh_witness:
  "2 \<le> length [Array3 0 0 0, Array3 1 0 0, Array3 1 1 0]
   \<and> (\<exists>d. appendLineData3v id [[Array3 0 0 0, Array3 1 0 0, Array3 1 1 0]] False [] [] [] None
              [] [] [] exampleExtent = Inr d
          \<and> length (outVertices d) = 60
          \<and> outOrders d = concat (replicate 5 [1, - 1, 2, - 2])
          \<and> take 12 (outVertices d) = map Some (concat (replicate 4 [- 1, 0, 0]))
          \<and> drop 48 (outVertices d) = map Some (concat (replicate 4 [1, 2, 0])))"
  using open_segment_mesh [of "[Array3 0 0 0, Array3 1 0 0, Array3 1 1 0]" id None exampleExtent]
  by (simp add: numeral_eq_Suc)

subsection \<open>C2: moving a point of an attached polyline\<close>

text \<open>
  Claim C2 has \<^verbatim>\<open>setPoint3v\<close> on an attached polyline overwrite the block of the edited
  point and set the vertex-buffer flag. On a polyline attached to a render node without
  an ellipsoid the full rebuild stores no Cartesian point (\<^verbatim>\<open>outPath3v[j].push(cur)\<close>
  stands inside \<^verbatim>\<open>if (ellipsoid)\<close>): for the path \<open>(0,0,0), (1,0,0), (1,1,0)\<close> the
  vertex array gets its 60 numbers and the stored path is one empty segment, so
  \<^verbatim>\<open>setPoint3v\<close> at index 1 throws on \<^verbatim>\<open>path[index].x\<close> and writes nothing. Where the
  point is stored, \<open>set_point_patch\<close> above holds.
\<close>

theorem set_point_without_ellipsoid:
  "map_sum id (\<lambda>s. (path3v s, length (vertices s), renderNode s \<noteq> None))
     (thenDo exampleEmptyLine (createData3v id [[Array3 0 0 0, Array3 1 0 0, Array3 1 1 0]]))
     = Inr ([[]], 60, True)
   \<and> map_sum id vertices
       (thenDo (thenDo exampleEmptyLine (createData3v id [[Array3 0 0 0, Array3 1 0 0, Array3 1 1 0]]))
          (setPoint3v id \<lparr>vx = 5, vy = 5, vz = 5\<rparr> 1 0 False))
     = Inl TypeError"
  by code_simp

subsection \<open>C3: the length of the index array\<close>

text \<open>
  Claim C3 gives the index array of an open path with segment lengths \<open>n1, ..., nk\<close> the
  length \<open>4 * (n1 + ... + nk) + 4 * k\<close>, 28 for the lengths 3 and 2. The builder pushes
  a leading pair, four indices for every point, four more at the end of every segment
  and a pair between two segments: for the lengths 3 and 2 that makes 32 indices.
\<close>

theorem index_array_length_counterexample:
  "map_sum id (length \<circ> outIndexes)
     (appendLineData3v id
        [[Array3 0 0 0, Array3 1 0 0, Array3 1 1 0], [Array3 0 0 0, Array3 1 0 0]]
        False [] [] [] None [] [] [] exampleExtent) = Inr 32
   \<and> (32 :: nat) \<noteq> 4 * (3 + 2) + 4 * 2"
  by code_simp

text \<open>
  Claim C3, amended. For an open path of \<open>k \<ge> 1\<close> segments, each of at least 2 points,
  the index array of a full rebuild has length \<open>4 * (n1 + ... + nk) + 6 * k\<close>; for the
  segment lengths 3 and 2 it has length 32.
\<close>

theorem index_array_length:
  assumes "ps \<noteq> []" and "\<forall>p \<in> set ps. 2 \<le> length p"
  shows "\<exists>d. appendLineData3v fm ps False [] [] [] ell [] [] [] ext = Inr d
           \<and> length (outIndexes d) = 4 * sum_list (map length ps) + 6 * length ps"
proof -
  from assms(2) have ok: "\<forall>p \<in> set ps. segmentOK False (length p)"
    by (simp add: segmentOK_open)
  from appendLineData3v_ok [OF ok, of fm ell "[]" "[]" "[]" ext] obtain d where
    d: "appendLineData3v fm ps False [] [] [] ell [] [] [] ext = Inr d"
       "outIndexes d = [0, 0] @ pathIndexes False (length ps) 0 0 (map length ps)"
    by blast
  from assms(1) have "length (pathIndexes False (length ps) 0 0 (map length ps)) + 2
      = 4 * sum_list (map length ps) + 6 * length (map length ps)"
    by (intro length_pathIndexes) simp_all
  with d show ?thesis by simp
qed

theorem index_array_length_witness:
  "[[Array3 0 0 0, Array3 1 0 0, Array3 1 1 0], [Array3 0 0 0, Array3 1 0 0]] \<noteq> []
   \<and> 2 \<le> length [Array3 0 0 0, Array3 1 0 0, Array3 1 1 0]
   \<and> 2 \<le> length [Array3 0 0 0, Array3 1 0 0]
   \<and> (\<exists>d. appendLineData3v id
              [[Array3 0 0 0, Array3 1 0 0, Array3 1 1 0], [Array3 0 0 0, Array3 1 0 0]]
              False [] [] [] None [] [] [] exampleExtent = Inr d
          \<and> length (outIndexes d) = 32)"
  using index_array_length
    [of "[[Array3 0 0 0, Array3 1 0 0, Array3 1 1 0], [Array3 0 0 0, Array3 1 0 0]]"
      id None exampleExtent]
  by simp

subsection \<open>C4: the extent after a rebuild or an edit\<close>

text \<open>
  Claim C4 has the corners of the stored extent equal the exact minimum and maximum of
  \<open>lon\<close> and \<open>lat\<close> over all stored geodetic points. Every computation of the extent
  starts from the corners \<open>(180, 90)\<close> and \<open>(-180, -90)\<close> and only moves them outwards: a
  geodetic path whose longitudes are 200 and 210 leaves \<open>southWest.lon\<close> at 180.
\<close>

theorem extent_covers_points_counterexample:
  "map_sum id (\<lambda>s. (lon (southWest (extent s)), map lon (storedPoints s)))
     (thenDo (setRenderNode id exampleNode (newPolyline False))
        (createDataLonLat id [[ArrayLL 200 10 0, ArrayLL 210 20 0]]))
     = Inr (180, [200, 210])
   \<and> map_sum id (\<lambda>s. lon (southWest (extent s)) = Min (lon ` set (storedPoints s)))
       (thenDo (setRenderNode id exampleNode (newPolyline False))
          (createDataLonLat id [[ArrayLL 200 10 0, ArrayLL 210 20 0]]))
     = Inr False"
  by code_simp

text \<open>
  Claim C4, amended. After a full rebuild from Cartesian input with an ellipsoid, after a
  full rebuild from geodetic input, and after \<^verbatim>\<open>setPoint3v\<close> with \<^verbatim>\<open>forceLonLat\<close> false
  on an attached polyline with an ellipsoid, \<open>southWest.lon\<close> is the minimum of 180 and
  the stored longitudes, \<open>southWest.lat\<close> the minimum of 90 and the stored latitudes,
  \<open>northEast.lon\<close> the maximum of -180 and the stored longitudes, \<open>northEast.lat\<close> the
  maximum of -90 and the stored latitudes. They are the exact minimum and maximum over
  the stored points whenever there is a stored point and every stored point has its
  longitude in \<open>[-180, 180]\<close> and its latitude in \<open>[-90, 90]\<close>.
\<close>

theorem extent_covers_points:
  assumes "(renderNode s = Some rn \<and> ellipsoid rn = Some e \<and> createData3v fm path3 s = Inr s')
           \<or> createDataLonLat fm pathLL s = Inr s'
           \<or> (renderNode s = Some rn \<and> ellipsoid rn = Some e
                \<and> setPoint3v fm c i seg False s = Inr s')"
  shows "lon (southWest (extent s')) = Min (insert 180 (lon ` set (storedPoints s')))
         \<and> lat (southWest (extent s')) = Min (insert 90 (lat ` set (storedPoints s')))
         \<and> lon (northEast (extent s')) = Max (insert (- 180) (lon ` set (storedPoints s')))
         \<and> lat (northEast (extent s')) = Max (insert (- 90) (lat ` set (storedPoints s')))
         \<and> (storedPoints s' \<noteq> []
              \<and> (\<forall>p \<in> set (storedPoints s').
                    - 180 \<le> lon p \<and> lon p \<le> 180 \<and> - 90 \<le> lat p \<and> lat p \<le> 90)
            \<longrightarrow> lon (southWest (extent s')) = Min (lon ` set (storedPoints s'))
                \<and> lat (southWest (extent s')) = Min (lat ` set (storedPoints s'))
                \<and> lon (northEast (extent s')) = Max (lon ` set (storedPoints s'))
                \<and> lat (northEast (extent s')) = Max (lat ` set (storedPoints s')))"
proof -
  from assms have
    ex: "extent s' = fold (\<lambda>p x. extendExtent x p) (storedPoints s') (resetExtent (extent s))"
    using createData3v_extent createDataLonLat_extent setPoint3v_extent by blast
  note corners = extent_of_fold [OF ex]
  have exact: "lon (southWest (extent s')) = Min (lon ` set (storedPoints s'))
                \<and> lat (southWest (extent s')) = Min (lat ` set (storedPoints s'))
                \<and> lon (northEast (extent s')) = Max (lon ` set (storedPoints s'))
                \<and> lat (northEast (extent s')) = Max (lat ` set (storedPoints s'))"
    if ne: "storedPoints s' \<noteq> []"
      and range: "\<forall>p \<in> set (storedPoints s').
                    - 180 \<le> lon p \<and> lon p \<le> 180 \<and> - 90 \<le> lat p \<and> lat p \<le> 90"
  proof -
    from ne have "lon ` set (storedPoints s') \<noteq> {}" "lat ` set (storedPoints s') \<noteq> {}"
      by simp_all
    moreover from range have "\<forall>a \<in> lon ` set (storedPoints s'). a \<le> 180"
      "\<forall>a \<in> lat ` set (storedPoints s'). a \<le> 90"
      "\<forall>a \<in> lon ` set (storedPoints s'). - 180 \<le> a"
      "\<forall>a \<in> lat ` set (storedPoints s'). - 90 \<le> a"
      by auto
    ultimately show ?thesis
      by (simp only: corners Min_insert_bound Max_insert_bound finite_imageI finite_set simp_thms)
  qed
  from corners exact show ?thesis by blast
qed

theorem extent_covers_points_witness:
  "renderNode ((newPolyline False)\<lparr>renderNode := Some exampleNode\<rparr>) = Some exampleNode
   \<and> ellipsoid exampleNode = Some exampleEllipsoid
   \<and> (\<exists>s'. createDataLonLat id [[ArrayLL 10 20 0, ArrayLL 30 5 0]]
               ((newPolyline False)\<lparr>renderNode := Some exampleNode\<rparr>) = Inr s'
          \<and> lon (southWest (extent s')) = 10 \<and> lat (southWest (extent s')) = 5
          \<and> lon (northEast (extent s')) = 30 \<and> lat (northEast (extent s')) = 20)
   \<and> (\<exists>s1 s'. createData3v id [[Array3 0 0 0, Array3 1 0 0, Array3 1 1 0]]
               ((newPolyline False)\<lparr>renderNode := Some exampleNode\<rparr>) = Inr s1
          \<and> lon (southWest (extent s1)) = 0 \<and> lat (southWest (extent s1)) = 0
          \<and> lon (northEast (extent s1)) = 1 \<and> lat (northEast (extent s1)) = 1
          \<and> setPoint3v id \<lparr>vx = 5, vy = - 7, vz = 5\<rparr> 1 0 False s1 = Inr s'
          \<and> lon (southWest (extent s')) = 0 \<and> lat (southWest (extent s')) = - 7
          \<and> lon (northEast (extent s')) = 5 \<and> lat (northEast (extent s')) = 1)"
proof -
  let ?s0 = "(newPolyline False)\<lparr>renderNode := Some exampleNode\<rparr>"
  let ?pLL = "[[ArrayLL 10 20 0, ArrayLL 30 5 0]]"
  let ?p3 = "[[Array3 0 0 0, Array3 1 0 0, Array3 1 1 0]]"
  let ?c = "\<lparr>vx = 5, vy = - 7, vz = 5\<rparr>"
  have h1: "renderNode ?s0 = Some exampleNode" by simp
  have h2: "ellipsoid exampleNode = Some exampleEllipsoid" by (simp add: exampleNode_def)
  have "\<not> isl (createDataLonLat id ?pLL ?s0)" by code_simp
  then obtain a where a: "createDataLonLat id ?pLL ?s0 = Inr a"
    by (cases "createDataLonLat id ?pLL ?s0") auto
  have "map_sum id storedPoints (createDataLonLat id ?pLL ?s0)
          = Inr [\<lparr>lon = 10, lat = 20, height = 0\<rparr>, \<lparr>lon = 30, lat = 5, height = 0\<rparr>]"
    by code_simp
  with a have pa: "storedPoints a = [\<lparr>lon = 10, lat = 20, height = 0\<rparr>, \<lparr>lon = 30, lat = 5, height = 0\<rparr>]"
    by simp
  from a have "(renderNode ?s0 = Some exampleNode \<and> ellipsoid exampleNode = Some exampleEllipsoid
                  \<and> createData3v id ?p3 ?s0 = Inr a)
           \<or> createDataLonLat id ?pLL ?s0 = Inr a
           \<or> (renderNode ?s0 = Some exampleNode \<and> ellipsoid exampleNode = Some exampleEllipsoid
                \<and> setPoint3v id ?c 1 0 False ?s0 = Inr a)"
    by simp
  from extent_covers_points [OF this] pa have
    ea: "lon (southWest (extent a)) = 10 \<and> lat (southWest (extent a)) = 5
          \<and> lon (northEast (extent a)) = 30 \<and> lat (northEast (extent a)) = 20"
    by simp
  have "\<not> isl (createData3v id ?p3 ?s0)" by code_simp
  then obtain s1 where s1: "createData3v id ?p3 ?s0 = Inr s1"
    by (cases "createData3v id ?p3 ?s0") auto
  have "map_sum id (\<lambda>s. (storedPoints s, renderNode s = None)) (createData3v id ?p3 ?s0)
          = Inr ([\<lparr>lon = 0, lat = 0, height = 0\<rparr>, \<lparr>lon = 1, lat = 0, height = 0\<rparr>,
                 \<lparr>lon = 1, lat = 1, height = 0\<rparr>], False)"
    by code_simp
  with s1 have p1: "storedPoints s1 = [\<lparr>lon = 0, lat = 0, height = 0\<rparr>, \<lparr>lon = 1, lat = 0, height = 0\<rparr>,
                 \<lparr>lon = 1, lat = 1, height = 0\<rparr>]"
    by simp
  from h1 h2 s1 have "(renderNode ?s0 = Some exampleNode \<and> ellipsoid exampleNode = Some exampleEllipsoid
                  \<and> createData3v id ?p3 ?s0 = Inr s1)
           \<or> createDataLonLat id ?pLL ?s0 = Inr s1
           \<or> (renderNode ?s0 = Some exampleNode \<and> ellipsoid exampleNode = Some exampleEllipsoid
                \<and> setPoint3v id ?c 1 0 False ?s0 = Inr s1)"
    by simp
  from extent_covers_points [OF this] p1 have
    e1: "lon (southWest (extent s1)) = 0 \<and> lat (southWest (extent s1)) = 0
          \<and> lon (northEast (extent s1)) = 1 \<and> lat (northEast (extent s1)) = 1"
    by simp
  from s1 have rn1: "renderNode s1 = Some exampleNode"
    by (auto simp: createData3v_def Let_def storeLineData_def clearData_def split: sum.splits)
  have "\<not> isl (thenDo (createData3v id ?p3 ?s0) (setPoint3v id ?c 1 0 False))" by code_simp
  with s1 have "\<not> isl (setPoint3v id ?c 1 0 False s1)" by (simp add: thenDo_def)
  then obtain b where b: "setPoint3v id ?c 1 0 False s1 = Inr b"
    by (cases "setPoint3v id ?c 1 0 False s1") auto
  have "map_sum id storedPoints (thenDo (createData3v id ?p3 ?s0) (setPoint3v id ?c 1 0 False))
          = Inr [\<lparr>lon = 0, lat = 0, height = 0\<rparr>, \<lparr>lon = 5, lat = - 7, height = 5\<rparr>,
                 \<lparr>lon = 1, lat = 1, height = 0\<rparr>]"
    by code_simp
  with s1 b have pb: "storedPoints b = [\<lparr>lon = 0, lat = 0, height = 0\<rparr>, \<lparr>lon = 5, lat = - 7, height = 5\<rparr>,
                 \<lparr>lon = 1, lat = 1, height = 0\<rparr>]"
    by (simp add: thenDo_def)
  from rn1 h2 b have "(renderNode s1 = Some exampleNode \<and> ellipsoid exampleNode = Some exampleEllipsoid
                  \<and> createData3v id ?p3 s1 = Inr b)
           \<or> createDataLonLat id ?pLL s1 = Inr b
           \<or> (renderNode s1 = Some exampleNode \<and> ellipsoid exampleNode = Some exampleEllipsoid
                \<and> setPoint3v id ?c 1 0 False s1 = Inr b)"
    by simp
  from extent_covers_points [OF this] pb have
    eb: "lon (southWest (extent b)) = 0 \<and> lat (southWest (extent b)) = - 7
          \<and> lon (northEast (extent b)) = 5 \<and> lat (northEast (extent b)) = 1"
    by simp
  from h1 h2 a ea s1 e1 b eb show ?thesis by blast
qed

subsection \<open>C5: the two builders agree\<close>

text \<open>
  Claim C5. For every ellipsoid, every geodetic path and either value of the closed flag,
  \<^verbatim>\<open>appendLineDataLonLat\<close> and \<^verbatim>\<open>appendLineData3v\<close> applied to the path's pointwise
  \<^verbatim>\<open>lonLatToCartesian\<close> image, both started on empty arrays, return the same vertex
  array, the same order array and the same index array (and fail alike on a segment that
  is too short). The Cartesian build may be given any ellipsoid or none.
\<close>

theorem builds_agree:
  "meshArrays (appendLineDataLonLat fm ps c [] [] [] (Some e) [] [] [] ext)
     = meshArrays (appendLineData3v fm'
         (map (map (\<lambda>p. Vector3 (lonLatToCartesian e (toLonLat p)))) ps)
         c [] [] [] ell' [] [] [] ext')"
proof (cases "\<forall>p \<in> set ps. segmentOK c (length p)")
  case True
  let ?img = "map (map (\<lambda>p. Vector3 (lonLatToCartesian e (toLonLat p)))) ps"
  from True have ok: "\<forall>p \<in> set ?img. segmentOK c (length p)" by simp
  from appendLineDataLonLat_ok [OF True, of fm e "[]" "[]" "[]" ext] obtain d1 where
    d1: "appendLineDataLonLat fm ps c [] [] [] (Some e) [] [] [] ext = Inr d1"
    "outVertices d1 = map Some (concat (map (\<lambda>p. segmentCoords c (map (\<lambda>p. lonLatToCartesian e (toLonLat p)) p)) ps))"
    "outOrders d1 = concat (map (\<lambda>p. concat (replicate (length p + 2) orderCycle)) ps)"
    "outIndexes d1 = [0, 0] @ pathIndexes c (length ps) 0 0 (map length ps)"
    by blast
  from appendLineData3v_ok [OF ok, of fm' ell' "[]" "[]" "[]" ext'] obtain d2 where
    d2: "appendLineData3v fm' ?img c [] [] [] ell' [] [] [] ext' = Inr d2"
    "outVertices d2 = map Some (concat (map (\<lambda>p. segmentCoords c (map toVec3 p)) ?img))"
    "outOrders d2 = concat (map (\<lambda>p. concat (replicate (length p + 2) orderCycle)) ?img)"
    "outIndexes d2 = [0, 0] @ pathIndexes c (length ?img) 0 0 (map length ?img)"
    by blast
  show ?thesis
    using d1 d2 by (simp add: meshArrays_def comp_def)
next
  case False
  let ?img = "map (map (\<lambda>p. Vector3 (lonLatToCartesian e (toLonLat p)))) ps"
  from False have b1: "\<exists>p \<in> set ps. \<not> segmentOK c (length p)" by simp
  then have b2: "\<exists>p \<in> set ?img. \<not> segmentOK c (length p)" by simp
  show ?thesis
    by (simp add: appendLineDataLonLat_bad [OF b1] appendLineData3v_bad [OF b2] meshArrays_def)
qed

theorem builds_agree_witness:
  "meshArrays (appendLineDataLonLat id [[ArrayLL 10 20 0, ArrayLL 11 21 0, ArrayLL 12 22 5]]
      False [] [] [] (Some exampleEllipsoid) [] [] [] exampleExtent)
     = meshArrays (appendLineData3v id
         (map (map (\<lambda>p. Vector3 (lonLatToCartesian exampleEllipsoid (toLonLat p))))
            [[ArrayLL 10 20 0, ArrayLL 11 21 0, ArrayLL 12 22 5]])
         False [] [] [] None [] [] [] exampleExtent)"
  using builds_agree [of id "[[ArrayLL 10 20 0, ArrayLL 11 21 0, ArrayLL 12 22 5]]" False
      exampleEllipsoid exampleExtent id None exampleExtent]
  by simp

subsection \<open>C6: the caps of a closed segment\<close>

text \<open>
  Claim C6. In a closed path whose segments have at least 2 points each, the block of 12
  numbers in front of a segment's points is the segment's last point \<open>P(n-1)\<close> four
  times over, and the block after its points is its first point \<open>P0\<close> four times over.
  The segment's blocks start after the \<open>12 * (m + 2)\<close> numbers of every earlier
  segment of \<open>m\<close> points.
\<close>

theorem closed_segment_caps:
  assumes "2 \<le> length seg" and "\<forall>p \<in> set (pre @ post). 2 \<le> length p"
  shows "\<exists>d. appendLineData3v fm (pre @ seg # post) True [] [] [] ell [] [] [] ext = Inr d
           \<and> take 12 (drop (12 * sum_list (map (\<lambda>p. length p + 2) pre)) (outVertices d))
               = map Some (concat (replicate 4
                   [vx (toVec3 (seg ! (length seg - 1))), vy (toVec3 (seg ! (length seg - 1))),
                    vz (toVec3 (seg ! (length seg - 1)))]))
           \<and> take 12 (drop (12 * sum_list (map (\<lambda>p. length p + 2) pre) + 12 * length seg + 12)
                        (outVertices d))
               = map Some (concat (replicate 4
                   [vx (toVec3 (seg ! 0)), vy (toVec3 (seg ! 0)), vz (toVec3 (seg ! 0))]))"
proof -
  have ok: "\<forall>p \<in> set (pre @ seg # post). segmentOK True (length p)"
  proof
    fix p
    assume "p \<in> set (pre @ seg # post)"
    then have "p = seg \<or> p \<in> set (pre @ post)" by auto
    with assms have "2 \<le> length p" by auto
    then show "segmentOK True (length p)" by (simp add: segmentOK_closed)
  qed
  from appendLineData3v_ok [OF ok, of fm ell "[]" "[]" "[]" ext] obtain d where
    d: "appendLineData3v fm (pre @ seg # post) True [] [] [] ell [] [] [] ext = Inr d"
       "outVertices d
          = map Some (concat (map (\<lambda>p. segmentCoords True (map toVec3 p)) (pre @ seg # post)))"
    by blast
  from assms(1) have "0 < length seg" "length seg - 1 < length seg" "map toVec3 seg \<noteq> []"
    by auto
  then have caps: "capBefore True (map toVec3 seg) = toVec3 (seg ! (length seg - 1))"
    "capAfter True (map toVec3 seg) = toVec3 (seg ! 0)"
    by (simp_all add: capBefore_closed capAfter_closed)
  have "take 12 (drop (12 * sum_list (map (\<lambda>p. length p + 2) pre)) (outVertices d))
           = map Some (coords4 (capBefore True (map toVec3 seg)))"
    by (rule caps_of_layout(1) [OF d(2)]) simp
  then have b: "take 12 (drop (12 * sum_list (map (\<lambda>p. length p + 2) pre)) (outVertices d))
               = map Some (concat (replicate 4
                   [vx (toVec3 (seg ! (length seg - 1))), vy (toVec3 (seg ! (length seg - 1))),
                    vz (toVec3 (seg ! (length seg - 1)))]))"
    by (simp only: caps coords4_replicate)
  have "take 12 (drop (12 * sum_list (map (\<lambda>p. length p + 2) pre) + 12 * length seg + 12)
                        (outVertices d))
          = map Some (coords4 (capAfter True (map toVec3 seg)))"
    by (rule caps_of_layout(2) [OF d(2)]) simp
  then have a: "take 12 (drop (12 * sum_list (map (\<lambda>p. length p + 2) pre) + 12 * length seg + 12)
                        (outVertices d))
               = map Some (concat (replicate 4
                   [vx (toVec3 (seg ! 0)), vy (toVec3 (seg ! 0)), vz (toVec3 (seg ! 0))]))"
    by (simp only: caps coords4_replicate)
  from d(1) b a show ?thesis by blast
qed

theorem closed_segment_caps_witness:
  "2 \<le> length [Array3 0 0 0, Array3 1 0 0, Array3 1 1 0]
   \<and> 2 \<le> length [Array3 9 9 9, Array3 8 8 8]
   \<and> (\<exists>d. appendLineData3v id
              [[Array3 9 9 9, Array3 8 8 8], [Array3 0 0 0, Array3 1 0 0, Array3 1 1 0]]
              True [] [] [] None [] [] [] exampleExtent = Inr d
          \<and> take 12 (drop 48 (outVertices d)) = map Some (concat (replicate 4 [1, 1, 0]))
          \<and> take 12 (drop 96 (outVertices d)) = map Some (concat (replicate 4 [0, 0, 0])))"
  using closed_segment_caps [of "[Array3 0 0 0, Array3 1 0 0, Array3 1 1 0]"
      "[[Array3 9 9 9, Array3 8 8 8]]" "[]" id None exampleExtent]
  by (simp add: numeral_eq_Suc)

subsection \<open>C7: segments that are too short\<close>

text \<open>
  Claim C7 has every path with a segment of 1 or 0 points rejected. A closed segment of
  one point is built, by either builder: its caps are the point itself.
\<close>

theorem short_segment_fails_counterexample:
  "map_sum id (length \<circ> outVertices)
     (appendLineData3v id [[Array3 5 6 7]] True [] [] [] None [] [] [] exampleExtent) = Inr 36
   \<and> indexesAndOrders
        (appendLineData3v id [[Array3 5 6 7]] True [] [] [] None [] [] [] exampleExtent)
       = Inr ([0, 0, 0, 1, 2, 3, 0, 1, 1, 1], [1, - 1, 2, - 2, 1, - 1, 2, - 2, 1, - 1, 2, - 2])
   \<and> indexesAndOrders
        (appendLineDataLonLat id [[ArrayLL 5 6 7]] True [] [] [] (Some exampleEllipsoid) [] [] []
           exampleExtent)
       = Inr ([0, 0, 0, 1, 2, 3, 0, 1, 1, 1], [1, - 1, 2, - 2, 1, - 1, 2, - 2, 1, - 1, 2, - 2])"
  by code_simp

text \<open>
  Claim C7, amended. A path with an open segment of 1 or 0 points, or with a closed
  segment of 0 points, makes both builders and both full rebuilds fail with the
  \<open>TypeError\<close> of reading a point that is not there; no array is returned.
\<close>

theorem short_segment_fails:
  assumes "\<exists>p \<in> set ps. length p < (if closedLine s then 1 else 2)"
    and "\<exists>q \<in> set qs. length q < (if closedLine s then 1 else 2)"
  shows "appendLineData3v fm ps (closedLine s) [] [] [] ell [] [] [] ext = Inl TypeError
         \<and> appendLineDataLonLat fm qs (closedLine s) [] [] [] ell' [] [] [] ext = Inl TypeError
         \<and> createData3v fm ps s = Inl TypeError
         \<and> createDataLonLat fm qs s = Inl TypeError"
proof -
  from assms(1) obtain p where "p \<in> set ps" "length p < (if closedLine s then 1 else 2)"
    by blast
  then have "p \<in> set ps" "\<not> segmentOK (closedLine s) (length p)"
    by (simp_all add: segmentOK_def split: if_splits)
  then have b1: "\<exists>p \<in> set ps. \<not> segmentOK (closedLine s) (length p)"
    by blast
  from assms(2) obtain q where "q \<in> set qs" "length q < (if closedLine s then 1 else 2)"
    by blast
  then have "q \<in> set qs" "\<not> segmentOK (closedLine s) (length q)"
    by (simp_all add: segmentOK_def split: if_splits)
  then have b2: "\<exists>q \<in> set qs. \<not> segmentOK (closedLine s) (length q)"
    by blast
  show ?thesis
    by (simp add: appendLineData3v_bad [OF b1] appendLineDataLonLat_bad [OF b2]
          createData3v_def createDataLonLat_def Let_def clearData_simps split: option.splits)
qed

theorem short_segment_fails_witness:
  "length [Array3 5 6 7] < 2
   \<and> length [ArrayLL 5 6 7] < 2
   \<and> appendLineData3v id [[Array3 5 6 7]] False [] [] [] None [] [] [] exampleExtent
       = Inl TypeError
   \<and> appendLineDataLonLat id [[ArrayLL 5 6 7]] False [] [] [] (Some exampleEllipsoid) [] [] []
       exampleExtent = Inl TypeError
   \<and> createData3v id [[Array3 5 6 7]] (newPolyline False) = Inl TypeError
   \<and> createDataLonLat id [[ArrayLL 5 6 7]] (newPolyline False) = Inl TypeError"
  using short_segment_fails [of "[[Array3 5 6 7]]" "newPolyline False" "[[ArrayLL 5 6 7]]"
      id None exampleExtent "Some exampleEllipsoid"]
  by (simp add: newPolyline_def)

subsection \<open>C10: indices and orders depend on the shape only\<close>

text \<open>
  Claim C10. Two paths with the same number of segments, the same segment lengths and
  the same closed flag get the same index array and the same order array (or fail alike),
  whatever their coordinates, from \<^verbatim>\<open>appendLineData3v\<close>, from \<^verbatim>\<open>appendLineDataLonLat\<close>,
  and from one compared with the other, each started on empty arrays.
\<close>

theorem shape_determines_indexes:
  assumes "map length p2 = map length p1"
    and "map length q1 = map length p1"
    and "map length q2 = map length p1"
  shows "indexesAndOrders (appendLineData3v fm1 p1 c [] [] [] ell1 [] [] [] ext1)
           = indexesAndOrders (appendLineData3v fm2 p2 c [] [] [] ell2 [] [] [] ext2)
         \<and> indexesAndOrders (appendLineDataLonLat fm3 q1 c [] [] [] (Some e3) [] [] [] ext3)
           = indexesAndOrders (appendLineDataLonLat fm4 q2 c [] [] [] (Some e4) [] [] [] ext4)
         \<and> indexesAndOrders (appendLineDataLonLat fm3 q1 c [] [] [] (Some e3) [] [] [] ext3)
           = indexesAndOrders (appendLineData3v fm1 p1 c [] [] [] ell1 [] [] [] ext1)"
  using assms by (simp add: indexesAndOrders_3v indexesAndOrders_LonLat)

theorem shape_determines_indexes_witness:
  "map length [[Array3 5 5 5, Vector3 \<lparr>vx = 1, vy = 2, vz = 3\<rparr>, Array3 7 8 9]]
     = map length [[Array3 0 0 0, Array3 1 0 0, Array3 1 1 0]]
   \<and> map length [[ArrayLL 10 20 0, ArrayLL 11 21 0, ArrayLL 12 22 5]]
     = map length [[Array3 0 0 0, Array3 1 0 0, Array3 1 1 0]]
   \<and> map length [[ArrayLL 0 0 0, ObjectLL \<lparr>lon = 1, lat = 1, height = 1\<rparr>, ArrayLL 2 2 2]]
     = map length [[Array3 0 0 0, Array3 1 0 0, Array3 1 1 0]]
   \<and> indexesAndOrders (appendLineData3v id [[Array3 0 0 0, Array3 1 0 0, Array3 1 1 0]] False
        [] [] [] None [] [] [] exampleExtent)
     = indexesAndOrders (appendLineData3v id
        [[Array3 5 5 5, Vector3 \<lparr>vx = 1, vy = 2, vz = 3\<rparr>, Array3 7 8 9]] False
        [] [] [] (Some exampleEllipsoid) [] [] [] exampleExtent)
   \<and> indexesAndOrders (appendLineDataLonLat id [[ArrayLL 10 20 0, ArrayLL 11 21 0, ArrayLL 12 22 5]]
        False [] [] [] (Some exampleEllipsoid) [] [] [] exampleExtent)
     = indexesAndOrders (appendLineDataLonLat id
        [[ArrayLL 0 0 0, ObjectLL \<lparr>lon = 1, lat = 1, height = 1\<rparr>, ArrayLL 2 2 2]]
        False [] [] [] (Some exampleEllipsoid) [] [] [] exampleExtent)
   \<and> indexesAndOrders (appendLineDataLonLat id [[ArrayLL 10 20 0, ArrayLL 11 21 0, ArrayLL 12 22 5]]
        False [] [] [] (Some exampleEllipsoid) [] [] [] exampleExtent)
     = indexesAndOrders (appendLineData3v id [[Array3 0 0 0, Array3 1 0 0, Array3 1 1 0]] False
        [] [] [] None [] [] [] exampleExtent)"
proof -
  have a: "map length [[Array3 5 5 5, Vector3 \<lparr>vx = 1, vy = 2, vz = 3\<rparr>, Array3 7 8 9]]
     = map length [[Array3 0 0 0, Array3 1 0 0, Array3 1 1 0]]"
    by simp
  have b: "map length [[ArrayLL 10 20 0, ArrayLL 11 21 0, ArrayLL 12 22 5]]
     = map length [[Array3 0 0 0, Array3 1 0 0, Array3 1 1 0]]"
    by simp
  have c: "map length [[ArrayLL 0 0 0, ObjectLL \<lparr>lon = 1, lat = 1, height = 1\<rparr>, ArrayLL 2 2 2]]
     = map length [[Array3 0 0 0, Array3 1 0 0, Array3 1 1 0]]"
    by simp
  from a b c
    shape_determines_indexes [OF a b c, of id False None exampleExtent id "Some exampleEllipsoid"
      exampleExtent id exampleEllipsoid exampleExtent id exampleEllipsoid exampleExtent]
  show ?thesis by blast
qed

subsection \<open>C8: the order of the pre-draw update\<close>

text \<open>
  Claim C8 has the pre-draw update run the vertex-buffer routine first and the
  index-buffer routine second. The loop \<^verbatim>\<open>while (i--)\<close> counts down from the last
  flag: on an attached polyline with both flags set, the calls the graphics handler
  receives are those of the index routine followed by those of the vertex routine.
\<close>

theorem update_order_counterexample:
  "map_sum id glCalls (thenDo exampleEmptyLine update)
     = Inr [DeleteBuffer None, DeleteBuffer None,
            CreateBuffer (ArrayBuffer [] 1 0), CreateBuffer (ElementArrayBuffer [0, 0] 1 2),
            DeleteBuffer None, CreateBuffer (ArrayBuffer [] 3 0)]
   \<and> map_sum id glCalls (thenDo exampleEmptyLine updateVertexFirst)
     = Inr [DeleteBuffer None, CreateBuffer (ArrayBuffer [] 3 0),
            DeleteBuffer None, DeleteBuffer None,
            CreateBuffer (ArrayBuffer [] 1 0), CreateBuffer (ElementArrayBuffer [0, 0] 1 2)]
   \<and> map_sum id glCalls (thenDo exampleEmptyLine update)
     \<noteq> map_sum id glCalls (thenDo exampleEmptyLine updateVertexFirst)"
  by code_simp

text \<open>
  Claim C8, amended. On an attached polyline with both flags set, the pre-draw update
  runs the index-buffer routine first and the vertex-buffer routine second, clears each
  flag after its routine, and leaves both flags false.
\<close>

theorem update_order:
  assumes "renderNode s = Some rn" and "changedBuffers s = [True, True]"
  shows "\<exists>s1 s2. createIndexBuffer s = Inr s1
           \<and> createVerticesBuffer (s1\<lparr>changedBuffers := [True, False]\<rparr>) = Inr s2
           \<and> update s = Inr (s2\<lparr>changedBuffers := [False, False]\<rparr>)
           \<and> glCalls s2 = glCalls s @
               [DeleteBuffer (ordersBuffer s), DeleteBuffer (indexesBuffer s),
                CreateBuffer (ArrayBuffer (map (\<lambda>i. Some (real_of_int i)) (orders s)) 1
                                (real (length (orders s)) / 2)),
                CreateBuffer (ElementArrayBuffer (indexes s) 1 (real (length (indexes s)))),
                DeleteBuffer (verticesBuffer s),
                CreateBuffer (ArrayBuffer (vertices s) 3 (real (length (vertices s)) / 3))]"
  using assms
  by (simp add: update_def buffersUpdateCallbacks_def createIndexBuffer_def
        createVerticesBuffer_def VERTICES_BUFFER_def INDEX_BUFFER_def Let_def numeral_2_eq_2)

theorem update_order_witness:
  "renderNode ((newPolyline False)\<lparr>renderNode := Some exampleNode\<rparr>) = Some exampleNode
   \<and> changedBuffers ((newPolyline False)\<lparr>renderNode := Some exampleNode\<rparr>) = [True, True]
   \<and> map_sum id changedBuffers (update ((newPolyline False)\<lparr>renderNode := Some exampleNode\<rparr>))
       = Inr [False, False]
   \<and> map_sum id glCalls (update ((newPolyline False)\<lparr>renderNode := Some exampleNode\<rparr>))
       = Inr [DeleteBuffer None, DeleteBuffer None,
              CreateBuffer (ArrayBuffer [] 1 0), CreateBuffer (ElementArrayBuffer [] 1 0),
              DeleteBuffer None, CreateBuffer (ArrayBuffer [] 3 0)]"
proof -
  let ?s = "(newPolyline False)\<lparr>renderNode := Some exampleNode\<rparr>"
  have h1: "renderNode ?s = Some exampleNode" by simp
  have h2: "changedBuffers ?s = [True, True]" by (simp add: newPolyline_def)
  from update_order [OF h1 h2] obtain s1 s2 where
    u: "createIndexBuffer ?s = Inr s1"
       "createVerticesBuffer (s1\<lparr>changedBuffers := [True, False]\<rparr>) = Inr s2"
       "update ?s = Inr (s2\<lparr>changedBuffers := [False, False]\<rparr>)"
       "glCalls s2 = glCalls ?s @
               [DeleteBuffer (ordersBuffer ?s), DeleteBuffer (indexesBuffer ?s),
                CreateBuffer (ArrayBuffer (map (\<lambda>i. Some (real_of_int i)) (orders ?s)) 1
                                (real (length (orders ?s)) / 2)),
                CreateBuffer (ElementArrayBuffer (indexes ?s) 1 (real (length (indexes ?s)))),
                DeleteBuffer (verticesBuffer ?s),
                CreateBuffer (ArrayBuffer (vertices ?s) 3 (real (length (vertices ?s)) / 3))]"
    by blast
  from u(3) u(4) h1 h2 show ?thesis by (simp add: newPolyline_def)
qed

subsection \<open>C9: what \<open>clear\<close> empties\<close>

text \<open>
  Claim C9 has \<^verbatim>\<open>clear()\<close> empty the vertex, order and index arrays and the three
  coordinate arrays, and release the buffers. On the attached example polyline
  \<^verbatim>\<open>clear()\<close> empties the vertex, order and index arrays and gives up the three
  buffers, but the Cartesian, geodetic and Mercator paths stay as they were: only
  \<^verbatim>\<open>_clearData\<close>, which \<^verbatim>\<open>clear()\<close> does not call, empties them.
\<close>

theorem clear_keeps_paths:
  "map_sum id (\<lambda>s. (vertices (clear s), orders (clear s), indexes (clear s))) exampleLine
     = Inr ([], [], [])
   \<and> map_sum id (\<lambda>s. (verticesBuffer (clear s), ordersBuffer (clear s), indexesBuffer (clear s)))
        exampleLine = Inr (None, None, None)
   \<and> map_sum id (path3v \<circ> clear) exampleLine
     = Inr [[\<lparr>vx = 0, vy = 0, vz = 0\<rparr>, \<lparr>vx = 1, vy = 0, vz = 0\<rparr>, \<lparr>vx = 1, vy = 1, vz = 0\<rparr>]]
   \<and> map_sum id (pathLonLat \<circ> clear) exampleLine
     = Inr [[\<lparr>lon = 0, lat = 0, height = 0\<rparr>, \<lparr>lon = 1, lat = 0, height = 0\<rparr>,
             \<lparr>lon = 1, lat = 1, height = 0\<rparr>]]
   \<and> map_sum id (pathLonLatMerc \<circ> clear) exampleLine
     = Inr [[Some \<lparr>lon = 0, lat = 0, height = 0\<rparr>, Some \<lparr>lon = 1, lat = 0, height = 0\<rparr>,
             Some \<lparr>lon = 1, lat = 1, height = 0\<rparr>]]"
  by code_simp

end
